theory Spec2Isabelle
  imports Complex_Main "HOL-Library.Log_Nat"
begin

section \<open>Python values and dictionaries\<close>

text \<open>
  The objects that travel over the sockets are pickled Python values. A dictionary is
  an association list whose first binding of a key is the one that counts.
\<close>

datatype pyval =
    PNone
  | PBool bool
  | PInt int
  | PStr string
  | PList "pyval list"
  | PTuple "pyval list"
  | PDict "(string \<times> pyval) list"

type_synonym pydict = "(string \<times> pyval) list"

text \<open>Python truthiness, as used by \<^verbatim>\<open>if x or y\<close>.\<close>

fun truthy :: "pyval \<Rightarrow> bool" where
  "truthy PNone = False"
| "truthy (PBool b) = b"
| "truthy (PInt i) = (i \<noteq> 0)"
| "truthy (PStr s) = (s \<noteq> [])"
| "truthy (PList xs) = (xs \<noteq> [])"
| "truthy (PTuple xs) = (xs \<noteq> [])"
| "truthy (PDict d) = (d \<noteq> [])"

text \<open>\<^verbatim>\<open>needle in hay\<close> for two strings: \<open>needle\<close> occurs as a contiguous slice.\<close>

fun starts_with :: "string \<Rightarrow> string \<Rightarrow> bool" where
  "starts_with [] hay = True"
| "starts_with (c # cs) [] = False"
| "starts_with (c # cs) (h # hs) = (c = h \<and> starts_with cs hs)"

fun str_contains :: "string \<Rightarrow> string \<Rightarrow> bool" where
  "str_contains needle [] = (needle = [])"
| "str_contains needle (h # hs) = (starts_with needle (h # hs) \<or> str_contains needle hs)"

section \<open>Errors, results and sockets\<close>

datatype zmq_errno = EAGAIN | EFSM | ENOTSOCK | EOTHER

datatype error =
    ZMQError zmq_errno
  | KeyError string
  | TypeError
  | IndexError
  | AssertionError string
  | ZeroDivisionError
  | ConnectionError string
  | RuntimeError string

text \<open>
  How a call ends: it returns, it raises, or it blocks for ever in a receive without
  time limit.
\<close>

datatype status = Returned | Raised error | Blocked

datatype 'a io = Got 'a | Fail error | Wait

datatype event = Recv pyval | Send pyval

record zsocket =
  rcvtimeo :: int
  sndtimeo :: int
  closed :: bool
  wire :: "event list"

text \<open>
  The controller-facing socket is created as \<^verbatim>\<open>zmq.REP\<close> (server.py, line 364; the
  comment above it: messages do go in pairs). A reply socket alternates strictly:
  a receive is only possible when no reply is owed, a send only when one is; the library
  raises \<^verbatim>\<open>ZMQError\<close> with \<^verbatim>\<open>EFSM\<close> otherwise. \<open>inbox\<close> holds the requests the
  controller is going to send, in order (dictionaries, as the protocol has them, so
  that \<^verbatim>\<open>'ctrl' in message\<close> asks for a key); \<open>wire\<close> records what crossed the socket.
  A reply is taken to reach a controller that is there to read it.
  With no request left, a receive without time limit (\<open>rcvtimeo < 0\<close>) blocks.
\<close>

record rep_socket = zsocket +
  owes_reply :: bool
  inbox :: "pydict list"

definition recv_pyobj :: "rep_socket \<Rightarrow> pydict io \<times> rep_socket" where
  "recv_pyobj s =
     (if closed s then (Fail (ZMQError ENOTSOCK), s)
      else if owes_reply s then (Fail (ZMQError EFSM), s)
      else (case inbox s of
              [] \<Rightarrow> (if rcvtimeo s < 0 then (Wait, s) else (Fail (ZMQError EAGAIN), s))
            | m # rest \<Rightarrow>
                (Got m, s\<lparr>wire := wire s @ [Recv (PDict m)], owes_reply := True, inbox := rest\<rparr>)))"

definition send_pyobj :: "rep_socket \<Rightarrow> pyval \<Rightarrow> unit io \<times> rep_socket" where
  "send_pyobj s v =
     (if closed s then (Fail (ZMQError ENOTSOCK), s)
      else if \<not> owes_reply s then (Fail (ZMQError EFSM), s)
      else (Got (), s\<lparr>wire := wire s @ [Send v], owes_reply := False\<rparr>))"

section \<open>The per-tick hook: \<^verbatim>\<open>_BTgymAnalyzer\<close>\<close>

text \<open>
  The strategy and the renderer are external collaborators. The hook reads and writes
  the strategy's attributes \<open>iteration\<close>, \<open>action\<close>, \<open>last_action\<close>,
  \<open>broker_message\<close> and the parameter \<open>skip_frame\<close>; everything else of the
  engine is \<open>internals\<close>. The strategy's query methods are observations of that state,
  the renderer has a state of its own (it keeps the pictures it draws).
\<close>

record strategy =
  iteration :: int
  skip_frame :: int
  action :: pyval
  last_action :: pyval
  broker_message :: string
  internals :: pyval

record 'r ops =
  get_done :: "strategy \<Rightarrow> bool"
  get_info :: "strategy \<Rightarrow> pyval"
  get_raw_state :: "strategy \<Rightarrow> pyval"
  get_state :: "strategy \<Rightarrow> pyval"
  get_reward :: "strategy \<Rightarrow> pyval"
  render_fn :: "'r \<Rightarrow> pyval \<Rightarrow> pyval option \<Rightarrow> bool option \<Rightarrow> pyval \<times> 'r"
  str_of :: "pyval \<Rightarrow> string"
  describe :: "pyval \<Rightarrow> pyval"
  sample_reset :: "pyval \<Rightarrow> pyval"

text \<open>
  \<open>render_fn r mode step send_img\<close> is \<^verbatim>\<open>render.render(mode, step_to_render=step,
  send_img=send_img)\<close>; \<open>None\<close> is a keyword argument that is not passed.
  \<open>str_of\<close> is Python's \<^verbatim>\<open>'{}'.format(x)\<close>; \<open>describe\<close> and \<open>sample_reset\<close>
  are the methods \<^verbatim>\<open>describe()\<close> and \<^verbatim>\<open>reset()\<close> of a trial sample, the second
  giving the sample as the call leaves it. \<open>close_calls\<close> and
  \<open>runstop_calls\<close> count the calls of \<^verbatim>\<open>strategy.close()\<close> and
  \<^verbatim>\<open>strategy.env.runstop()\<close>.
\<close>

record 'r analyzer =
  strategy :: strategy
  an_socket :: rep_socket
  renderer :: 'r
  message :: "pydict option"
  step_to_render :: pyval
  render_at_stop :: pyval
  info_list :: "pyval list"
  close_calls :: nat
  runstop_calls :: nat

definition early_stop :: "'r ops \<Rightarrow> 'r analyzer \<Rightarrow> 'r analyzer" where
  "early_stop ops a =
     (let (img, r') = render_fn ops (renderer a) (render_at_stop a)
                        (Some (step_to_render a)) (Some False)
      in a\<lparr>renderer := r', close_calls := Suc (close_calls a),
            runstop_calls := Suc (runstop_calls a)\<rparr>)"

text \<open>The loop of lines 112 to 131; it ends with the message that has no \<open>ctrl\<close> key.\<close>

datatype loop_exit = Action_turn pydict | Leave status

definition render_reply :: "'r ops \<Rightarrow> 'r analyzer \<Rightarrow> pydict \<Rightarrow> unit io \<times> 'r analyzer" where
  "render_reply ops a m =
     (case map_of m ''mode'' of
        None \<Rightarrow> (Fail (KeyError ''mode''), a)
      | Some md \<Rightarrow>
          (let (img, r') = render_fn ops (renderer a) md (Some (step_to_render a)) None;
               (res, s') = send_pyobj (an_socket a) img
           in (res, a\<lparr>an_socket := s', renderer := r'\<rparr>)))"

function control_actions :: "'r ops \<Rightarrow> 'r analyzer \<Rightarrow> pydict \<Rightarrow> loop_exit \<times> 'r analyzer" where
  "control_actions ops a m =
     (case map_of m ''ctrl'' of
        None \<Rightarrow> (Action_turn m, a)
      | Some c \<Rightarrow>
          (case (if c = PStr ''_render'' then render_reply ops a m else (Got (), a)) of
             (Fail e, a1) \<Rightarrow> (Leave (Raised e), a1)
           | (Wait, a1) \<Rightarrow> (Leave Blocked, a1)
           | (Got u, a1) \<Rightarrow>
               if c = PStr ''_done'' then
                 (case send_pyobj (an_socket a1) (PStr ''_DONE SIGNAL RECEIVED'') of
                    (Fail e, s') \<Rightarrow> (Leave (Raised e), a1\<lparr>an_socket := s'\<rparr>)
                  | (Wait, s') \<Rightarrow> (Leave Blocked, a1\<lparr>an_socket := s'\<rparr>)
                  | (Got u', s') \<Rightarrow> (Leave Returned, early_stop ops (a1\<lparr>an_socket := s'\<rparr>)))
               else
                 (case recv_pyobj (an_socket a1) of
                    (Fail e, s') \<Rightarrow> (Leave (Raised e), a1\<lparr>an_socket := s'\<rparr>)
                  | (Wait, s') \<Rightarrow> (Leave Blocked, a1\<lparr>an_socket := s'\<rparr>)
                  | (Got m', s') \<Rightarrow>
                      control_actions ops (a1\<lparr>an_socket := s', message := Some m'\<rparr>) m')))"
  by pat_completeness auto

lemma recv_pyobj_shrinks:
  "(Got m, s') = recv_pyobj s \<Longrightarrow> length (inbox s') < length (inbox s)"
  by (auto simp: recv_pyobj_def split: if_splits list.splits)

lemma send_pyobj_inbox: "(r, s') = send_pyobj s v \<Longrightarrow> inbox s' = inbox s"
  by (auto simp: send_pyobj_def split: if_splits)

lemma render_reply_inbox:
  "(r, a') = render_reply ops a m \<Longrightarrow> inbox (an_socket a') = inbox (an_socket a)"
  by (auto simp: render_reply_def send_pyobj_def split: option.splits prod.splits if_splits)

termination control_actions
proof (relation "measure (\<lambda>(ops, a, m). length (inbox (an_socket a)))", goal_cases)
  case 1
  show ?case by simp
next
  case (2 ops a m c x a1 u s' m')
  then show ?case
    by (auto split: if_splits dest!: render_reply_inbox recv_pyobj_shrinks)
qed

text \<open>Lines 155 to 161: the fall-back to control mode and the strategy housekeeping.\<close>

definition finish :: "'r ops \<Rightarrow> 'r analyzer \<Rightarrow> bool \<Rightarrow> 'r analyzer" where
  "finish ops a is_done =
     (let a1 = (if is_done then early_stop ops a else a)
      in a1\<lparr>strategy := (strategy a1)\<lparr>iteration := iteration (strategy a1) + 1,
                                       broker_message := ''-''\<rparr>\<rparr>)"

text \<open>Lines 107 to 131: wait for a request, then serve control requests until an action comes.\<close>

definition await_action :: "'r ops \<Rightarrow> 'r analyzer \<Rightarrow> loop_exit \<times> 'r analyzer" where
  "await_action ops a =
     (case recv_pyobj (an_socket a) of
        (Fail e, s) \<Rightarrow> (Leave (Raised e), a\<lparr>an_socket := s\<rparr>)
      | (Wait, s) \<Rightarrow> (Leave Blocked, a\<lparr>an_socket := s\<rparr>)
      | (Got m, s) \<Rightarrow> control_actions ops (a\<lparr>an_socket := s, message := Some m\<rparr>) m)"

text \<open>
  Lines 133 to 153: store the action, send the tuple, back up the step for rendering and
  empty the batch; then lines 155 to 161. \<open>raw_state\<close>, \<open>state\<close> and \<open>reward\<close>
  are the values gathered in lines 100 to 104. \<^verbatim>\<open>self.info_list[-1]\<close> on an empty
  list raises \<^verbatim>\<open>IndexError\<close> (\<^verbatim>\<open>next\<close> never calls it so: it has just appended).
\<close>

definition act_and_reply ::
  "'r ops \<Rightarrow> 'r analyzer \<Rightarrow> pydict \<Rightarrow> pyval \<Rightarrow> pyval \<Rightarrow> pyval \<Rightarrow> bool
     \<Rightarrow> status \<times> 'r analyzer" where
  "act_and_reply ops a m raw_state state reward is_done =
     (case map_of m ''action'' of
        None \<Rightarrow>
          (Raised (AssertionError
             (''No <action> key recieved:'' @ [CHR 0x0A] @
              ''COMM recieved: '' @ str_of ops (PDict m))), a)
      | Some act \<Rightarrow>
          (let a2 = a\<lparr>strategy := (strategy a)\<lparr>action := act, last_action := act\<rparr>\<rparr>
           in if info_list a2 = [] then (Raised IndexError, a2)
              else
                (let info = [last (info_list a2)]
                 in case send_pyobj (an_socket a2)
                           (PTuple [state, reward, PBool is_done, PList info]) of
                      (Fail e, s') \<Rightarrow> (Raised e, a2\<lparr>an_socket := s'\<rparr>)
                    | (Wait, s') \<Rightarrow> (Blocked, a2\<lparr>an_socket := s'\<rparr>)
                    | (Got u, s') \<Rightarrow>
                        (Returned,
                         finish ops
                           (a2\<lparr>an_socket := s',
                               step_to_render :=
                                 PTuple [PDict [(''human'', raw_state)], state, reward,
                                         PBool is_done, PList (info_list a2)],
                               info_list := []\<rparr>)
                           is_done))))"

text \<open>Lines 99 to 153: the exchange with the controller on a communicated tick.\<close>

definition communicate :: "'r ops \<Rightarrow> 'r analyzer \<Rightarrow> bool \<Rightarrow> status \<times> 'r analyzer" where
  "communicate ops a is_done =
     (let raw_state = get_raw_state ops (strategy a);
          state = get_state ops (strategy a);
          reward = get_reward ops (strategy a)
      in case await_action ops a of
           (Leave st, a1) \<Rightarrow> (st, a1)
         | (Action_turn m', a1) \<Rightarrow> act_and_reply ops a1 m' raw_state state reward is_done)"

text \<open>
  \<^verbatim>\<open>_BTgymAnalyzer.next\<close>. Python evaluates \<^verbatim>\<open>iteration % skip_frame\<close> before
  \<^verbatim>\<open>or is_done\<close>, so a stride of zero raises whatever the flag is; Python's \<^verbatim>\<open>%\<close>
  on integers is the flooring \<open>mod\<close>.
\<close>

definition analyzer_next :: "'r ops \<Rightarrow> 'r analyzer \<Rightarrow> status \<times> 'r analyzer" where
  "analyzer_next ops a =
     (let is_done = get_done ops (strategy a);
          a1 = a\<lparr>info_list := info_list a @ [get_info ops (strategy a)]\<rparr>;
          a2 = a1\<lparr>strategy := (strategy a1)\<lparr>action := PStr ''hold''\<rparr>\<rparr>
      in if skip_frame (strategy a2) = 0 then (Raised ZeroDivisionError, a2)
         else if iteration (strategy a2) mod skip_frame (strategy a2) = 0 \<or> is_done
         then communicate ops a2 is_done
         else (Returned, finish ops a2 is_done))"

section \<open>The server: \<^verbatim>\<open>BTgymServer\<close>\<close>

text \<open>
  The data socket is created as \<^verbatim>\<open>zmq.REQ\<close> (line 370): a send, then a receive.
  \<open>script i v\<close> says how the \<open>i\<close>-th exchange on it goes when the request is
  \<open>v\<close> (the data provider sees the request before it answers), \<open>cursor\<close> counts the
  exchanges begun and \<open>request\<close> is the request last sent.
\<close>

datatype provider = Send_timeout | Send_fault | Recv_timeout | Recv_fault | Reply pyval

record req_socket = zsocket +
  awaiting_reply :: bool
  request :: pyval
  script :: "nat \<Rightarrow> pyval \<Rightarrow> provider"
  cursor :: nat

definition req_send_pyobj :: "req_socket \<Rightarrow> pyval \<Rightarrow> unit io \<times> req_socket" where
  "req_send_pyobj s v =
     (if closed s then (Fail (ZMQError ENOTSOCK), s)
      else if awaiting_reply s then (Fail (ZMQError EFSM), s)
      else (case script s (cursor s) v of
              Send_timeout \<Rightarrow> (Fail (ZMQError EAGAIN), s\<lparr>cursor := Suc (cursor s)\<rparr>)
            | Send_fault \<Rightarrow> (Fail (ZMQError EOTHER), s\<lparr>cursor := Suc (cursor s)\<rparr>)
            | _ \<Rightarrow> (Got (), s\<lparr>wire := wire s @ [Send v], awaiting_reply := True,
                             request := v\<rparr>)))"

definition req_recv_pyobj :: "req_socket \<Rightarrow> pyval io \<times> req_socket" where
  "req_recv_pyobj s =
     (if closed s then (Fail (ZMQError ENOTSOCK), s)
      else if \<not> awaiting_reply s then (Fail (ZMQError EFSM), s)
      else (case script s (cursor s) (request s) of
              Reply r \<Rightarrow>
                (Got r, s\<lparr>wire := wire s @ [Recv r], awaiting_reply := False,
                          cursor := Suc (cursor s)\<rparr>)
            | Recv_fault \<Rightarrow> (Fail (ZMQError EOTHER), s\<lparr>cursor := Suc (cursor s)\<rparr>)
            | _ \<Rightarrow> (if rcvtimeo s < 0 then (Wait, s)
                    else (Fail (ZMQError EAGAIN), s\<lparr>cursor := Suc (cursor s)\<rparr>))))"

record response =
  status :: string
  message_of :: pyval

text \<open>\<^verbatim>\<open>_comm_with_timeout\<close>: it catches every \<^verbatim>\<open>ZMQError\<close> and reports it as a status.\<close>

definition comm_with_timeout :: "req_socket \<Rightarrow> pyval \<Rightarrow> response io \<times> req_socket" where
  "comm_with_timeout s msg =
     (case req_send_pyobj s msg of
        (Fail (ZMQError EAGAIN), s1) \<Rightarrow>
          (Got \<lparr>status = ''send_failed_due_to_connect_timeout'', message_of = PNone\<rparr>, s1)
      | (Fail (ZMQError e), s1) \<Rightarrow>
          (Got \<lparr>status = ''send_failed_for_unknown_reason'', message_of = PNone\<rparr>, s1)
      | (Fail e, s1) \<Rightarrow> (Fail e, s1)
      | (Wait, s1) \<Rightarrow> (Wait, s1)
      | (Got u, s1) \<Rightarrow>
          (case req_recv_pyobj s1 of
             (Fail (ZMQError EAGAIN), s2) \<Rightarrow>
               (Got \<lparr>status = ''receive_failed_due_to_connect_timeout'', message_of = PNone\<rparr>, s2)
           | (Fail (ZMQError e), s2) \<Rightarrow>
               (Got \<lparr>status = ''receive_failed_for_unknown_reason'', message_of = PNone\<rparr>, s2)
           | (Fail e, s2) \<Rightarrow> (Fail e, s2)
           | (Wait, s2) \<Rightarrow> (Wait, s2)
           | (Got r, s2) \<Rightarrow> (Got \<lparr>status = ''ok'', message_of = r\<rparr>, s2)))"

text \<open>The object \<^verbatim>\<open>__init__\<close> builds (lines 222 to 232).\<close>

record 'r btgym_server =
  task :: int
  log_level :: pyval
  cerebro :: pyval
  network_address :: string
  render_obj :: 'r
  data_network_address :: string
  connect_timeout :: int
  connect_timeout_step :: real

definition init ::
  "pyval \<Rightarrow> 'r \<Rightarrow> string \<Rightarrow> string \<Rightarrow> int \<Rightarrow> pyval \<Rightarrow> int \<Rightarrow> 'r btgym_server" where
  "init cerebro_arg render_arg network_address_arg data_network_address_arg
        connect_timeout_arg log_level_arg task_arg =
     \<lparr>task = task_arg, log_level = log_level_arg, cerebro = cerebro_arg,
      network_address = network_address_arg, render_obj = render_arg,
      data_network_address = data_network_address_arg,
      connect_timeout = connect_timeout_arg, connect_timeout_step = 1 / 100\<rparr>"

text \<open>
  Python floats are IEEE doubles: a sum is the exact sum rounded to the nearest number
  with a significand of 53 bits, a tie going to the even significand. A double is a
  whole number of units of \<open>2 ^ -1074\<close> (the least positive double), and \<open>round_double\<close>
  drops from the number of units all bits but the leading 53. Overflow is left out (no
  time here comes near \<open>2 ^ 1024\<close>).
\<close>

definition round_half_even :: "real \<Rightarrow> int" where
  "round_half_even k =
     (let f = \<lfloor>k\<rfloor>
      in if k - of_int f < 1 / 2 then f
         else if 1 / 2 < k - of_int f then f + 1
         else if even f then f else f + 1)"

definition round_double :: "real \<Rightarrow> real" where
  "round_double x =
     (let s = nat (bitlen \<lfloor>\<bar>x\<bar> * 2 ^ 1074\<rfloor> - 53)
      in of_int (round_half_even (x * 2 ^ 1074 / 2 ^ s)) * 2 ^ s / 2 ^ 1074)"

definition float_add :: "real \<Rightarrow> real \<Rightarrow> real" where
  "float_add a b = round_double (a + b)"

text \<open>
  What \<^verbatim>\<open>run\<close> holds while the process lives: the object, the two sockets and their
  contexts, the local variables of the loop, the renderer, and the source of
  \<^verbatim>\<open>random.random()\<close>; \<open>slept\<close> lists the arguments of \<^verbatim>\<open>time.sleep\<close> so far.
  \<^verbatim>\<open>random.random()\<close> gives 53 random bits as a double in \<open>[0, 1)\<close>, that is
  \<open>k / 2 ^ 53\<close> with \<open>k < 2 ^ 53\<close>: \<open>random_draws\<close> holds the numbers \<open>k\<close> of the draws to
  come, read at \<open>draw_pos\<close>.
\<close>

record 'r session =
  self :: "'r btgym_server"
  socket :: rep_socket
  context_alive :: bool
  data_socket :: req_socket
  data_context_alive :: bool
  wait_for_data_reset :: real
  render :: 'r
  episode_result :: pydict
  trial_sample :: pyval
  trial_stat :: pyval
  dataset_stat :: pyval
  random_draws :: "nat \<Rightarrow> nat"
  draw_pos :: nat
  slept :: "real list"

definition random_random :: "'r session \<Rightarrow> real" where
  "random_random sv = real (random_draws sv (draw_pos sv) mod 2 ^ 53) / 2 ^ 53"

text \<open>
  Lines 347 to 390 of \<^verbatim>\<open>run\<close>: the housekeeping, the sockets and the ping. The local
  variable \<^verbatim>\<open>connect_timeout = 60\<close> of line 358 is \<open>local_connect_timeout\<close>.
  \<open>requests\<close>, \<open>prov\<close> and \<open>draws\<close> are what the controller, the data provider
  and the random generator are going to do.
\<close>

definition run_start ::
  "'r ops \<Rightarrow> 'r btgym_server \<Rightarrow> pydict list \<Rightarrow> (nat \<Rightarrow> pyval \<Rightarrow> provider) \<Rightarrow> (nat \<Rightarrow> nat)
     \<Rightarrow> status \<times> 'r session" where
  "run_start ops srv requests prov draws =
     (let local_connect_timeout = (60 :: int);
          sock = \<lparr>rcvtimeo = - 1, sndtimeo = local_connect_timeout * 1000, closed = False,
                  wire = [], owes_reply = False, inbox = requests\<rparr>;
          dsock = \<lparr>rcvtimeo = local_connect_timeout * 1000,
                   sndtimeo = local_connect_timeout * 1000, closed = False, wire = [],
                   awaiting_reply = False, request = PNone, script = prov, cursor = 0\<rparr>;
          sv = \<lparr>self = srv, socket = sock, context_alive = True, data_socket = dsock,
                data_context_alive = True, wait_for_data_reset = 300,
                render = render_obj srv, episode_result = [], trial_sample = PNone,
                trial_stat = PNone, dataset_stat = PNone, random_draws = draws,
                draw_pos = 0, slept = []\<rparr>
      in case comm_with_timeout dsock (PDict [(''ctrl'', PStr ''ping!'')]) of
           (Fail e, ds) \<Rightarrow> (Raised e, sv\<lparr>data_socket := ds\<rparr>)
         | (Wait, ds) \<Rightarrow> (Blocked, sv\<lparr>data_socket := ds\<rparr>)
         | (Got resp, ds) \<Rightarrow>
             if str_contains (status resp) ''ok'' then (Returned, sv\<lparr>data_socket := ds\<rparr>)
             else (Raised (ConnectionError
                     (''Data_server unreachable with status: <'' @ status resp @ ''>.'')),
                   sv\<lparr>data_socket := ds\<rparr>))"

text \<open>
  \<^verbatim>\<open>get_data\<close>. \<open>not_ready\<close> is the test of line 305,
  \<^verbatim>\<open>'Dataset not ready' in data_server_response['message']['ctrl']\<close>: a missing key
  raises \<^verbatim>\<open>KeyError\<close>, a value that cannot be indexed or searched \<^verbatim>\<open>TypeError\<close>.
\<close>

definition getitem :: "pyval \<Rightarrow> string \<Rightarrow> error + pyval" where
  "getitem v k =
     (case v of
        PDict d \<Rightarrow> (case map_of d k of None \<Rightarrow> Inl (KeyError k) | Some x \<Rightarrow> Inr x)
      | _ \<Rightarrow> Inl TypeError)"

definition str_in :: "string \<Rightarrow> pyval \<Rightarrow> error + bool" where
  "str_in k v =
     (case v of
        PStr s \<Rightarrow> Inr (str_contains k s)
      | PList xs \<Rightarrow> Inr (PStr k \<in> set xs)
      | PTuple xs \<Rightarrow> Inr (PStr k \<in> set xs)
      | PDict d \<Rightarrow> Inr (map_of d k \<noteq> None)
      | _ \<Rightarrow> Inl TypeError)"

definition not_ready :: "pyval \<Rightarrow> error + bool" where
  "not_ready msg =
     (case getitem msg ''ctrl'' of
        Inl e \<Rightarrow> Inl e
      | Inr c \<Rightarrow> str_in ''Dataset not ready'' c)"

definition get_data_request :: "pydict \<Rightarrow> pyval" where
  "get_data_request reset_kwargs =
     PDict [(''ctrl'', PStr ''_get_data''), (''kwargs'', PDict reset_kwargs)]"

text \<open>
  The loop of lines 287 to 323. It may run for ever, so it takes fuel: \<open>None\<close> is a
  loop that has not ended after that many rounds. It ends with the response it
  breaks on, or with what is raised, or blocked in a receive. The pause is
  \<^verbatim>\<open>random.random() * 2\<close>, a product that is exact in doubles (the significand is
  kept, the exponent goes up by one); \<^verbatim>\<open>wait += pause\<close> is a sum of floats.
\<close>

fun get_data_loop ::
  "nat \<Rightarrow> 'r session \<Rightarrow> pydict \<Rightarrow> real \<Rightarrow> (response io \<times> 'r session) option" where
  "get_data_loop 0 sv reset_kwargs wait = None"
| "get_data_loop (Suc n) sv reset_kwargs wait =
     (case comm_with_timeout (data_socket sv) (get_data_request reset_kwargs) of
        (Fail e, ds) \<Rightarrow> Some (Fail e, sv\<lparr>data_socket := ds\<rparr>)
      | (Wait, ds) \<Rightarrow> Some (Wait, sv\<lparr>data_socket := ds\<rparr>)
      | (Got resp, ds) \<Rightarrow>
          if \<not> str_contains (status resp) ''ok'' then
            Some (Fail (ConnectionError
                    (''BtgymServer_sampling_attempt: data_server unreachable with status: <''
                       @ status resp @ ''>.'')),
                  sv\<lparr>data_socket := ds\<rparr>)
          else
            (case not_ready (message_of resp) of
               Inl (KeyError k) \<Rightarrow> Some (Got resp, sv\<lparr>data_socket := ds\<rparr>)
             | Inl e \<Rightarrow> Some (Fail e, sv\<lparr>data_socket := ds\<rparr>)
             | Inr False \<Rightarrow> Some (Got resp, sv\<lparr>data_socket := ds\<rparr>)
             | Inr True \<Rightarrow>
                 if wait \<le> wait_for_data_reset sv then
                   (let pause = random_random sv * 2
                    in get_data_loop n
                         (sv\<lparr>data_socket := ds, draw_pos := Suc (draw_pos sv),
                             slept := slept sv @ [pause]\<rparr>)
                         reset_kwargs (float_add wait pause))
                 else
                   (case comm_with_timeout ds (PDict [(''ctrl'', PStr ''_stop'')]) of
                      (Fail e, ds') \<Rightarrow> Some (Fail e, sv\<lparr>data_socket := ds'\<rparr>)
                    | (Wait, ds') \<Rightarrow> Some (Wait, sv\<lparr>data_socket := ds'\<rparr>)
                    | (Got resp', ds') \<Rightarrow>
                        Some (Fail (RuntimeError
                                ''Failed to assert Domain dataset is ready. Exiting.''),
                              sv\<lparr>data_socket := ds',
                                  socket := (socket sv)\<lparr>closed := True\<rparr>,
                                  context_alive := False\<rparr>))))"

text \<open>Lines 286 and 324 to 330: the sample, its statistics, the statistics of the data set.\<close>

definition get_data ::
  "nat \<Rightarrow> 'r ops \<Rightarrow> 'r session \<Rightarrow> pydict
     \<Rightarrow> ((pyval \<times> pyval \<times> pyval) io \<times> 'r session) option" where
  "get_data fuel ops sv reset_kwargs =
     (case get_data_loop fuel sv reset_kwargs 0 of
        None \<Rightarrow> None
      | Some (Fail e, sv1) \<Rightarrow> Some (Fail e, sv1)
      | Some (Wait, sv1) \<Rightarrow> Some (Wait, sv1)
      | Some (Got resp, sv1) \<Rightarrow>
          (case getitem (message_of resp) ''sample'' of
             Inl e \<Rightarrow> Some (Fail e, sv1)
           | Inr smp \<Rightarrow>
               (let stat = describe ops smp;
                    smp' = sample_reset ops smp
                in case getitem (message_of resp) ''stat'' of
                     Inl e \<Rightarrow> Some (Fail e, sv1)
                   | Inr ds_stat \<Rightarrow> Some (Got (smp', stat, ds_stat), sv1))))"

text \<open>
  The control mode of lines 405 to 451. \<open>control_step\<close> is the body of the loop for
  one received request: \<open>None\<close> goes round again, \<open>Some\<close> leaves the loop.
\<close>

datatype ctl_exit = Terminated | Episode pydict | In_control | Crashed error

definition reply ::
  "'r session \<Rightarrow> pyval \<Rightarrow> ctl_exit option \<Rightarrow> ctl_exit option \<times> 'r session" where
  "reply sv v after =
     (case send_pyobj (socket sv) v of
        (Fail e, s) \<Rightarrow> (Some (Crashed e), sv\<lparr>socket := s\<rparr>)
      | (Wait, s) \<Rightarrow> (Some In_control, sv\<lparr>socket := s\<rparr>)
      | (Got u, s) \<Rightarrow> (after, sv\<lparr>socket := s\<rparr>))"

definition control_step ::
  "'r ops \<Rightarrow> 'r session \<Rightarrow> pydict \<Rightarrow> ctl_exit option \<times> 'r session" where
  "control_step ops sv service_input =
     (let msg = ''Control mode: received <'' @ str_of ops (PDict service_input) @ ''>''
      in case map_of service_input ''ctrl'' of
           Some c \<Rightarrow>
             if c = PStr ''_stop'' then
               (case reply sv (PStr ''Exiting.'') None of
                  (Some x, sv1) \<Rightarrow> (Some x, sv1)
                | (None, sv1) \<Rightarrow>
                    (Some Terminated,
                     sv1\<lparr>socket := (socket sv1)\<lparr>closed := True\<rparr>, context_alive := False\<rparr>))
             else if c = PStr ''_reset'' then
               (case map_of service_input ''kwargs'' of
                  None \<Rightarrow> (Some (Crashed (KeyError ''kwargs'')), sv)
                | Some kw \<Rightarrow>
                    reply sv (PStr (''Preparing new episode with kwargs: '' @ str_of ops kw))
                      (Some (Episode service_input)))
             else if c = PStr ''_getstat'' then
               reply sv (PDict (episode_result sv)) None
             else if c = PStr ''_render'' \<and> map_of service_input ''mode'' \<noteq> None then
               (let (img, r') = render_fn ops (render sv)
                                  (the (map_of service_input ''mode'')) None None
                in reply (sv\<lparr>render := r'\<rparr>) img None)
             else
               reply sv
                 (PDict [(''ctrl'',
                    PStr ''send control keys: <_reset>, <_getstat>, <_render>, <_stop>.'')])
                 None
         | None \<Rightarrow>
             reply sv
               (PStr (''No <ctrl> key received:'' @ msg @ [CHR 0x0A] @
                      ''Hint: forgot to call reset()?''))
               None)"

function control_mode :: "'r ops \<Rightarrow> 'r session \<Rightarrow> ctl_exit \<times> 'r session" where
  "control_mode ops sv =
     (case recv_pyobj (socket sv) of
        (Fail e, s) \<Rightarrow> (Crashed e, sv\<lparr>socket := s\<rparr>)
      | (Wait, s) \<Rightarrow> (In_control, sv\<lparr>socket := s\<rparr>)
      | (Got service_input, s) \<Rightarrow>
          (case control_step ops (sv\<lparr>socket := s\<rparr>) service_input of
             (Some x, sv1) \<Rightarrow> (x, sv1)
           | (None, sv1) \<Rightarrow> control_mode ops sv1))"
  by pat_completeness auto

lemma reply_inbox: "reply sv v after = (x, sv') \<Longrightarrow> inbox (socket sv') = inbox (socket sv)"
  by (auto simp: reply_def send_pyobj_def split: if_splits)

lemma control_step_inbox:
  "control_step ops sv m = (x, sv') \<Longrightarrow> inbox (socket sv') = inbox (socket sv)"
  by (auto simp: control_step_def Let_def
           split: option.splits if_splits prod.splits dest!: reply_inbox)

termination control_mode
proof (relation "measure (\<lambda>(ops, sv). length (inbox (socket sv)))", goal_cases)
  case 1
  show ?case by simp
next
  case (2 ops sv x s service_input y sv1)
  then show ?case
    by (auto dest!: control_step_inbox [OF sym] recv_pyobj_shrinks)
qed

text \<open>
  Lines 486 to 499: the choice between a new trial and the cached one.
  \<open>trial_config\<close> is \<^verbatim>\<open>sample_config['trial_config']\<close>, the dictionary that lines 474
  to 485 make of \<^verbatim>\<open>DataSampleConfig\<close> (of the module \<^verbatim>\<open>datafeed\<close>) and of the
  reset's \<open>kwargs\<close>; it is a parameter here.
\<close>

definition get_trial ::
  "nat \<Rightarrow> 'r ops \<Rightarrow> 'r session \<Rightarrow> pydict \<Rightarrow> (status \<times> 'r session) option" where
  "get_trial fuel ops sv trial_config =
     (case map_of trial_config ''get_new'' of
        None \<Rightarrow> Some (Raised (KeyError ''get_new''), sv)
      | Some g \<Rightarrow>
          if truthy g \<or> trial_sample sv = PNone then
            (case get_data fuel ops sv trial_config of
               None \<Rightarrow> None
             | Some (Fail e, sv1) \<Rightarrow> Some (Raised e, sv1)
             | Some (Wait, sv1) \<Rightarrow> Some (Blocked, sv1)
             | Some (Got (smp, stat, ds_stat), sv1) \<Rightarrow>
                 Some (Returned,
                       sv1\<lparr>trial_sample := smp, trial_stat := stat, dataset_stat := ds_stat\<rparr>))
          else Some (Returned, sv))"

section \<open>Vocabulary of the properties and sample inputs\<close>

text \<open>
  A strictly alternating trace: each request followed by its reply. \<open>is_render\<close> is a
  well-formed render request, \<^verbatim>\<open>{'ctrl': '_render', 'mode': ...}\<close>.
\<close>

fun exchanges :: "pydict list \<Rightarrow> pyval list \<Rightarrow> event list" where
  "exchanges (r # rs) (i # imgs) = Recv (PDict r) # Send i # exchanges rs imgs"
| "exchanges rs imgs = []"

definition is_render :: "pydict \<Rightarrow> bool" where
  "is_render m = (map_of m ''ctrl'' = Some (PStr ''_render'') \<and> map_of m ''mode'' \<noteq> None)"

text \<open>The pictures the renderer gives for the requests \<open>rs\<close> in turn, and its state after them.\<close>

fun renderings :: "'r ops \<Rightarrow> 'r \<Rightarrow> pyval \<Rightarrow> pydict list \<Rightarrow> pyval list \<times> 'r" where
  "renderings ops \<rho> step [] = ([], \<rho>)"
| "renderings ops \<rho> step (r # rs) =
     (let (img, \<rho>1) = render_fn ops \<rho> (the (map_of r ''mode'')) (Some step) None;
          (imgs, \<rho>2) = renderings ops \<rho>1 step rs
      in (img # imgs, \<rho>2))"

text \<open>
  Sample collaborators: an engine that is never done, whose info record and state are
  the tick counter, and a renderer that counts the pictures it has drawn; \<open>done_ops\<close>
  is the same with an engine that is done.
\<close>

definition demo_ops :: "nat ops" where
  "demo_ops =
     \<lparr>get_done = (\<lambda>s. False), get_info = (\<lambda>s. PInt (iteration s)),
      get_raw_state = (\<lambda>s. internals s), get_state = (\<lambda>s. PInt (iteration s)),
      get_reward = (\<lambda>s. PInt 0),
      render_fn = (\<lambda>r mode step send_img. (PInt (int r), Suc r)),
      str_of = (\<lambda>v. ''<obj>''), describe = (\<lambda>v. PStr ''stat''),
      sample_reset = (\<lambda>v. v)\<rparr>"

definition done_ops :: "nat ops" where
  "done_ops = demo_ops\<lparr>get_done := (\<lambda>s. True)\<rparr>"

definition demo_socket :: "pydict list \<Rightarrow> rep_socket" where
  "demo_socket requests =
     \<lparr>rcvtimeo = - 1, sndtimeo = 60000, closed = False, wire = [],
      owes_reply = False, inbox = requests\<rparr>"

definition demo_analyzer :: "int \<Rightarrow> int \<Rightarrow> pydict list \<Rightarrow> nat analyzer" where
  "demo_analyzer i k requests =
     \<lparr>strategy = \<lparr>iteration = i, skip_frame = k, action = PNone, last_action = PNone,
                  broker_message = ''-'', internals = PNone\<rparr>,
      an_socket = demo_socket requests, renderer = 0, message = None,
      step_to_render = PNone, render_at_stop = PList [PStr ''human''],
      info_list = [], close_calls = 0, runstop_calls = 0\<rparr>"

text \<open>
  The requests that leave the control mode, and the well-formed ones: a \<^verbatim>\<open>_reset\<close>
  carries \<open>kwargs\<close> (line 425 reads it). \<open>demo_session\<close> is a session as
  \<open>run_start\<close> leaves it, with a data provider that answers everything with a string
  and a random generator that always gives one half.
\<close>

definition leaves_control :: "pydict \<Rightarrow> bool" where
  "leaves_control m =
     (map_of m ''ctrl'' = Some (PStr ''_stop'') \<or> map_of m ''ctrl'' = Some (PStr ''_reset''))"

definition well_formed_request :: "pydict \<Rightarrow> bool" where
  "well_formed_request m =
     (map_of m ''ctrl'' \<noteq> Some (PStr ''_reset'') \<or> map_of m ''kwargs'' \<noteq> None)"

definition demo_session :: "pydict list \<Rightarrow> nat session" where
  "demo_session requests =
     snd (run_start demo_ops
            (init PNone 0 ''tcp://127.0.0.1:5500'' ''tcp://127.0.0.1:4999'' 90 PNone 0)
            requests (\<lambda>i v. Reply (PStr ''pong'')) (\<lambda>i. 2 ^ 52))"

text \<open>
  A reply of the data provider that carries the not-ready marker, and a session whose
  data provider is never ready.
\<close>

definition says_not_ready :: "provider \<Rightarrow> bool" where
  "says_not_ready p = (case p of Reply msg \<Rightarrow> not_ready msg = Inr True | _ \<Rightarrow> False)"

definition waiting_session :: "nat session" where
  "waiting_session =
     snd (run_start demo_ops
            (init PNone 0 ''tcp://127.0.0.1:5500'' ''tcp://127.0.0.1:4999'' 90 PNone 0)
            [] (\<lambda>i v. Reply (PDict [(''ctrl'', PStr ''Dataset not ready, wait'')]))
            (\<lambda>i. 2 ^ 52))"

text \<open>
  \<open>ready_session\<close> is a fresh session whose data provider has a sample at once,
  \<open>stalled_session\<close> one whose provider is never ready and whose random generator gives
  three quarters thrice and then the least positive value for ever.
\<close>

definition ready_session :: "nat session" where
  "ready_session =
     snd (run_start demo_ops
            (init PNone 0 ''tcp://127.0.0.1:5500'' ''tcp://127.0.0.1:4999'' 90 PNone 0)
            [] (\<lambda>i v. Reply (PDict [(''sample'', PStr ''trial''), (''stat'', PStr ''all'')]))
            (\<lambda>i. 2 ^ 52))"

definition stalled_session :: "nat session" where
  "stalled_session =
     snd (run_start demo_ops
            (init PNone 0 ''tcp://127.0.0.1:5500'' ''tcp://127.0.0.1:4999'' 90 PNone 0)
            [] (\<lambda>i v. Reply (PDict [(''ctrl'', PStr ''Dataset not ready, wait'')]))
            (\<lambda>i. if i < 3 then 3 * 2 ^ 51 else 1))"

text \<open>
  \<open>strip_kwargs\<close> takes the \<open>kwargs\<close> out of a \<^verbatim>\<open>_get_data\<close> request that was
  sent, and \<open>erase_kwargs\<close> does so all along the wire of the data socket and forgets
  the request last sent: two sessions that agree after it differ at most in the
  \<open>kwargs\<close> their requests carried.
\<close>

definition strip_kwargs :: "event \<Rightarrow> event" where
  "strip_kwargs e =
     (case e of
        Send (PDict d) \<Rightarrow>
          if map_of d ''ctrl'' = Some (PStr ''_get_data'')
          then Send (PDict (filter (\<lambda>kv. fst kv \<noteq> ''kwargs'') d))
          else e
      | _ \<Rightarrow> e)"

definition erase_kwargs :: "'r session \<Rightarrow> 'r session" where
  "erase_kwargs sv =
     sv\<lparr>data_socket := (data_socket sv)
           \<lparr>wire := map strip_kwargs (wire (data_socket sv)), request := PNone\<rparr>\<rparr>"

text \<open>
  The session after one round of the loop of \<^verbatim>\<open>get_data\<close> in which the data provider
  has answered \<open>r\<close> and the loop has slept.
\<close>

definition sleep_once :: "'r session \<Rightarrow> pydict \<Rightarrow> pyval \<Rightarrow> 'r session" where
  "sleep_once sv kw r =
     sv\<lparr>data_socket := (data_socket sv)
           \<lparr>wire := wire (data_socket sv) @ [Send (get_data_request kw), Recv r],
            awaiting_reply := False, request := get_data_request kw,
            cursor := Suc (cursor (data_socket sv))\<rparr>,
        draw_pos := Suc (draw_pos sv),
        slept := slept sv @ [random_random sv * 2]\<rparr>"

section \<open>Properties of the per-tick hook\<close>

declare control_actions.simps [simp del]

lemma send_pyobj_wire:
  "send_pyobj s v = (r, s') \<Longrightarrow> length (wire s) \<le> length (wire s')"
  by (auto simp: send_pyobj_def split: if_splits)

lemma recv_pyobj_wire:
  "recv_pyobj s = (r, s') \<Longrightarrow> length (wire s) \<le> length (wire s')"
  by (auto simp: recv_pyobj_def split: if_splits list.splits)

lemma recv_pyobj_Got_wire:
  "recv_pyobj s = (Got m, s') \<Longrightarrow> length (wire s) < length (wire s')"
  by (auto simp: recv_pyobj_def split: if_splits list.splits)

lemma render_reply_wire:
  "render_reply ops a m = (r, a') \<Longrightarrow> length (wire (an_socket a)) \<le> length (wire (an_socket a'))"
  by (auto simp: render_reply_def split: option.splits prod.splits dest: send_pyobj_wire)

lemma early_stop_socket [simp]: "an_socket (early_stop ops a) = an_socket a"
  by (simp add: early_stop_def split: prod.splits)

lemma control_actions_wire:
  "control_actions ops a m = (r, a') \<Longrightarrow>
     length (wire (an_socket a)) \<le> length (wire (an_socket a'))"
proof (induction ops a m arbitrary: r a' rule: control_actions.induct)
  case (1 ops a m)
  show ?case
  proof (cases "map_of m ''ctrl''")
    case None
    with "1.prems" show ?thesis by (simp add: control_actions.simps)
  next
    case (Some c)
    obtain x a1 where step: "(if c = PStr ''_render'' then render_reply ops a m else (Got (), a)) = (x, a1)"
      by (cases "(if c = PStr ''_render'' then render_reply ops a m else (Got (), a))") auto
    then have le1: "length (wire (an_socket a)) \<le> length (wire (an_socket a1))"
      by (auto split: if_splits dest: render_reply_wire)
    show ?thesis
    proof (cases x)
      case (Got u)
      show ?thesis
      proof (cases "c = PStr ''_done''")
        case True
        with "1.prems" Some step Got le1 show ?thesis
          by (subst (asm) control_actions.simps)
             (auto split: prod.splits io.splits dest!: send_pyobj_wire)
      next
        case False
        obtain y s' where rc: "recv_pyobj (an_socket a1) = (y, s')"
          by (cases "recv_pyobj (an_socket a1)") auto
        show ?thesis
        proof (cases y)
          case (Got m')
          have "control_actions ops (a1\<lparr>an_socket := s', message := Some m'\<rparr>) m' = (r, a')"
            using "1.prems" Some step \<open>x = Got u\<close> False rc Got
            by (subst (asm) control_actions.simps) simp
          from "1.IH"[OF Some step[symmetric] \<open>x = Got u\<close> False rc[symmetric] Got this]
          have "length (wire s') \<le> length (wire (an_socket a'))" by simp
          with le1 recv_pyobj_wire[OF rc] show ?thesis by simp
        next
          case (Fail e)
          with "1.prems" Some step \<open>x = Got u\<close> False rc le1 recv_pyobj_wire[OF rc] show ?thesis
            by (subst (asm) control_actions.simps) auto
        next
          case Wait
          with "1.prems" Some step \<open>x = Got u\<close> False rc le1 recv_pyobj_wire[OF rc] show ?thesis
            by (subst (asm) control_actions.simps) auto
        qed
      qed
    next
      case (Fail e)
      with "1.prems" Some step le1 show ?thesis
        by (subst (asm) control_actions.simps) auto
    next
      case Wait
      with "1.prems" Some step le1 show ?thesis
        by (subst (asm) control_actions.simps) auto
    qed
  qed
qed

lemma finish_socket [simp]: "an_socket (finish ops a d) = an_socket a"
  by (simp add: finish_def Let_def)

lemma await_action_wire:
  "await_action ops a = (r, a') \<Longrightarrow>
     length (wire (an_socket a)) \<le> length (wire (an_socket a')) \<and>
     (\<forall>m. r = Action_turn m \<longrightarrow> length (wire (an_socket a)) < length (wire (an_socket a'))) \<and>
     (r = Leave Returned \<longrightarrow> length (wire (an_socket a)) < length (wire (an_socket a')))"
  apply (cases "recv_pyobj (an_socket a)")
  subgoal for x s
    apply (cases x)
      apply (auto simp: await_action_def dest!: control_actions_wire recv_pyobj_Got_wire)
     apply (auto dest!: recv_pyobj_wire)
    done
  done

lemma communicate_wire:
  assumes "communicate ops a d = (st, a')"
  shows "st \<noteq> Returned \<or> length (wire (an_socket a)) < length (wire (an_socket a'))"
proof (cases "await_action ops a")
  case (Pair r a1)
  note aw = await_action_wire[OF Pair]
  show ?thesis
  proof (cases r)
    case (Leave x)
    with assms Pair aw show ?thesis by (auto simp: communicate_def Let_def)
  next
    case (Action_turn m)
    with assms Pair aw show ?thesis
      by (auto simp: communicate_def act_and_reply_def Let_def
               split: option.splits prod.splits io.splits if_splits dest!: send_pyobj_wire)
  qed
qed

lemma length_renderings [simp]: "length (fst (renderings ops \<rho> step rs)) = length rs"
proof (induction rs arbitrary: \<rho>)
  case Nil
  show ?case by simp
next
  case (Cons r rs)
  obtain img \<rho>1 where 1: "render_fn ops \<rho> (the (map_of r ''mode'')) (Some step) None = (img, \<rho>1)"
    by (cases "render_fn ops \<rho> (the (map_of r ''mode'')) (Some step) None") auto
  obtain imgs \<rho>2 where 2: "renderings ops \<rho>1 step rs = (imgs, \<rho>2)"
    by (cases "renderings ops \<rho>1 step rs") auto
  from Cons.IH[of \<rho>1] 1 2 show ?case by simp
qed

lemma await_action_render:
  assumes "\<not> closed (an_socket a)" "\<not> owes_reply (an_socket a)"
    and "inbox (an_socket a) = m # q" and "is_render m"
    and "render_fn ops (renderer a) (the (map_of m ''mode'')) (Some (step_to_render a)) None = (img, \<rho>)"
  shows "await_action ops a =
           await_action ops
             (a\<lparr>an_socket := (an_socket a)\<lparr>wire := wire (an_socket a) @ [Recv (PDict m), Send img],
                                            owes_reply := False, inbox := q\<rparr>,
                renderer := \<rho>, message := Some m\<rparr>)"
proof -
  from assms(4) obtain md where md: "map_of m ''mode'' = Some md"
    and c: "map_of m ''ctrl'' = Some (PStr ''_render'')"
    by (auto simp: is_render_def)
  show ?thesis
    using assms(1-3,5) md c
    apply (subst await_action_def)
    apply (simp add: recv_pyobj_def control_actions.simps render_reply_def send_pyobj_def)
    apply (simp add: await_action_def recv_pyobj_def split: list.splits)
    done
qed

lemma await_action_renders:
  assumes "\<forall>r\<in>set rs. is_render r" "\<not> closed (an_socket a)" "\<not> owes_reply (an_socket a)"
    and "inbox (an_socket a) = rs @ q"
  shows "\<exists>msg. await_action ops a =
           await_action ops
             (a\<lparr>an_socket := (an_socket a)
                   \<lparr>wire := wire (an_socket a) @
                            exchanges rs (fst (renderings ops (renderer a) (step_to_render a) rs)),
                    owes_reply := False, inbox := q\<rparr>,
                renderer := snd (renderings ops (renderer a) (step_to_render a) rs),
                message := msg\<rparr>)"
  using assms
proof (induction rs arbitrary: a)
  case Nil
  have "a = a\<lparr>an_socket := (an_socket a)\<lparr>wire := wire (an_socket a) @ exchanges [] [],
                                            owes_reply := False, inbox := q\<rparr>,
                renderer := renderer a, message := message a\<rparr>"
    using Nil by (cases a, cases "an_socket a") simp
  then show ?case by (intro exI[of _ "message a"]) simp
next
  case (Cons r rs)
  from Cons.prems have r: "is_render r" and rs: "\<forall>r\<in>set rs. is_render r" by auto
  obtain img \<rho>1 where rf:
    "render_fn ops (renderer a) (the (map_of r ''mode'')) (Some (step_to_render a)) None = (img, \<rho>1)"
    by (cases "render_fn ops (renderer a) (the (map_of r ''mode'')) (Some (step_to_render a)) None") auto
  have 1: "await_action ops a =
           await_action ops
             (a\<lparr>an_socket := (an_socket a)\<lparr>wire := wire (an_socket a) @ [Recv (PDict r), Send img],
                                            owes_reply := False, inbox := rs @ q\<rparr>,
                renderer := \<rho>1, message := Some r\<rparr>)" (is "_ = await_action ops ?a1")
    by (rule await_action_render[OF Cons.prems(2,3) _ r rf]) (use Cons.prems in simp)
  have "\<exists>msg. await_action ops ?a1 =
           await_action ops
             (?a1\<lparr>an_socket := (an_socket ?a1)
                   \<lparr>wire := wire (an_socket ?a1) @
                            exchanges rs (fst (renderings ops (renderer ?a1) (step_to_render ?a1) rs)),
                    owes_reply := False, inbox := q\<rparr>,
                renderer := snd (renderings ops (renderer ?a1) (step_to_render ?a1) rs),
                message := msg\<rparr>)"
    by (rule Cons.IH[OF rs]) (use Cons.prems in simp_all)
  then obtain msg where 3: "await_action ops ?a1 =
           await_action ops
             (?a1\<lparr>an_socket := (an_socket ?a1)
                   \<lparr>wire := wire (an_socket ?a1) @
                            exchanges rs (fst (renderings ops (renderer ?a1) (step_to_render ?a1) rs)),
                    owes_reply := False, inbox := q\<rparr>,
                renderer := snd (renderings ops (renderer ?a1) (step_to_render ?a1) rs),
                message := msg\<rparr>)"
    by blast
  show ?case
    using 1 3 rf by (intro exI[of _ msg]) (simp add: Let_def split: prod.splits)
qed

lemma await_action_turn:
  assumes "\<not> closed (an_socket a)" "\<not> owes_reply (an_socket a)"
    and "inbox (an_socket a) = m # q" and "map_of m ''ctrl'' = None"
  shows "await_action ops a =
           (Action_turn m,
            a\<lparr>an_socket := (an_socket a)\<lparr>wire := wire (an_socket a) @ [Recv (PDict m)],
                                           owes_reply := True, inbox := q\<rparr>,
              message := Some m\<rparr>)"
  using assms by (simp add: await_action_def recv_pyobj_def control_actions.simps)

lemma await_action_unknown:
  assumes "\<not> closed (an_socket a)" "\<not> owes_reply (an_socket a)"
    and "inbox (an_socket a) = m # q" and "map_of m ''ctrl'' = Some c"
    and "c \<noteq> PStr ''_render''" "c \<noteq> PStr ''_done''"
  shows "await_action ops a =
           (Leave (Raised (ZMQError EFSM)),
            a\<lparr>an_socket := (an_socket a)\<lparr>wire := wire (an_socket a) @ [Recv (PDict m)],
                                           owes_reply := True, inbox := q\<rparr>,
              message := Some m\<rparr>)"
  using assms by (simp add: await_action_def recv_pyobj_def control_actions.simps)

lemma act_and_reply_frame:
  fixes m :: pydict and a1 :: "'r analyzer"
  assumes "owes_reply (an_socket a1)" "\<not> closed (an_socket a1)"
  shows "\<exists>\<rho>' new.
     wire (an_socket (snd (act_and_reply ops a1 m raw st rw d))) = wire (an_socket a1) @ new \<and>
     act_and_reply ops (a1\<lparr>an_socket := (an_socket a1)\<lparr>wire := w'\<rparr>, renderer := \<rho>\<rparr>) m raw st rw d =
       (fst (act_and_reply ops a1 m raw st rw d),
        (snd (act_and_reply ops a1 m raw st rw d))
          \<lparr>an_socket := (an_socket (snd (act_and_reply ops a1 m raw st rw d)))\<lparr>wire := w' @ new\<rparr>,
           renderer := \<rho>'\<rparr>)"
proof (cases "map_of m ''action''")
  case None
  then show ?thesis
    by (intro exI[of _ \<rho>] exI[of _ "[]"]) (simp add: act_and_reply_def)
next
  case (Some act)
  show ?thesis
  proof (cases "info_list a1 = []")
    case True
    with Some show ?thesis
      by (intro exI[of _ \<rho>] exI[of _ "[]"]) (simp add: act_and_reply_def)
  next
    case ne: False
  show ?thesis
  proof (cases d)
    case True
    with Some ne assms show ?thesis
      apply (intro exI[of _ "snd (render_fn ops \<rho> (render_at_stop a1)
                                 (Some (PTuple [PDict [(''human'', raw)], st, rw,
                                           PBool True, PList (info_list a1)])) (Some False))"]
                    exI[of _ "[Send (PTuple [st, rw, PBool True, PList [last (info_list a1)]])]"])
      apply (simp add: act_and_reply_def send_pyobj_def finish_def early_stop_def Let_def
                  split: prod.splits)
      done
  next
    case False
    with Some ne assms show ?thesis
      apply (intro exI[of _ \<rho>]
                    exI[of _ "[Send (PTuple [st, rw, PBool False, PList [last (info_list a1)]])]"])
      apply (simp add: act_and_reply_def send_pyobj_def finish_def early_stop_def Let_def
                  split: prod.splits)
      done
  qed
  qed
qed

lemma await_after_renders_turn:
  fixes a :: "'r analyzer"
  assumes "\<forall>r\<in>set rs. is_render r" "\<not> closed (an_socket a)" "\<not> owes_reply (an_socket a)"
    and "inbox (an_socket a) = rs @ m # rest" and "map_of m ''ctrl'' = None"
  shows "\<exists>\<rho>. await_action ops a =
             (Action_turn m,
              a\<lparr>an_socket := (an_socket a)
                    \<lparr>wire := wire (an_socket a) @
                             exchanges rs (fst (renderings ops (renderer a) (step_to_render a) rs)) @
                             [Recv (PDict m)],
                     owes_reply := True, inbox := rest\<rparr>,
                renderer := \<rho>, message := Some m\<rparr>)"
proof -
  from await_action_renders[OF assms(1-4), of ops]
  obtain msg where e: "await_action ops a =
           await_action ops
             (a\<lparr>an_socket := (an_socket a)
                   \<lparr>wire := wire (an_socket a) @
                            exchanges rs (fst (renderings ops (renderer a) (step_to_render a) rs)),
                    owes_reply := False, inbox := m # rest\<rparr>,
                renderer := snd (renderings ops (renderer a) (step_to_render a) rs),
                message := msg\<rparr>)" (is "_ = await_action ops ?b")
    by blast
  have "await_action ops ?b =
          (Action_turn m,
           ?b\<lparr>an_socket := (an_socket ?b)\<lparr>wire := wire (an_socket ?b) @ [Recv (PDict m)],
                                           owes_reply := True, inbox := rest\<rparr>,
              message := Some m\<rparr>)"
    by (rule await_action_turn) (use assms in simp_all)
  with e show ?thesis
    by (intro exI[of _ "snd (renderings ops (renderer a) (step_to_render a) rs)"]) simp
qed

lemma await_after_renders_unknown:
  fixes a :: "'r analyzer"
  assumes "\<forall>r\<in>set rs. is_render r" "\<not> closed (an_socket a)" "\<not> owes_reply (an_socket a)"
    and "inbox (an_socket a) = rs @ m # rest" and "map_of m ''ctrl'' = Some c"
    and "c \<noteq> PStr ''_render''" "c \<noteq> PStr ''_done''"
  shows "\<exists>\<rho>. await_action ops a =
             (Leave (Raised (ZMQError EFSM)),
              a\<lparr>an_socket := (an_socket a)
                    \<lparr>wire := wire (an_socket a) @
                             exchanges rs (fst (renderings ops (renderer a) (step_to_render a) rs)) @
                             [Recv (PDict m)],
                     owes_reply := True, inbox := rest\<rparr>,
                renderer := \<rho>, message := Some m\<rparr>)"
proof -
  from await_action_renders[OF assms(1-4), of ops]
  obtain msg where e: "await_action ops a =
           await_action ops
             (a\<lparr>an_socket := (an_socket a)
                   \<lparr>wire := wire (an_socket a) @
                            exchanges rs (fst (renderings ops (renderer a) (step_to_render a) rs)),
                    owes_reply := False, inbox := m # rest\<rparr>,
                renderer := snd (renderings ops (renderer a) (step_to_render a) rs),
                message := msg\<rparr>)" (is "_ = await_action ops ?b")
    by blast
  have "await_action ops ?b =
          (Leave (Raised (ZMQError EFSM)),
           ?b\<lparr>an_socket := (an_socket ?b)\<lparr>wire := wire (an_socket ?b) @ [Recv (PDict m)],
                                           owes_reply := True, inbox := rest\<rparr>,
              message := Some m\<rparr>)"
    by (rule await_action_unknown[where c = c]) (use assms in simp_all)
  with e show ?thesis
    by (intro exI[of _ "snd (renderings ops (renderer a) (step_to_render a) rs)"]) simp
qed

lemma next_communicates:
  assumes "skip_frame (strategy a) \<noteq> 0"
    and "iteration (strategy a) mod skip_frame (strategy a) = 0 \<or> get_done ops (strategy a)"
  shows "analyzer_next ops a =
           communicate ops
             (a\<lparr>info_list := info_list a @ [get_info ops (strategy a)],
                strategy := (strategy a)\<lparr>action := PStr ''hold''\<rparr>\<rparr>)
             (get_done ops (strategy a))"
  using assms by (auto simp: analyzer_next_def Let_def)

lemmas demo_defs = demo_ops_def demo_analyzer_def demo_socket_def

lemmas tick_defs = analyzer_next_def communicate_def await_action_def recv_pyobj_def
  send_pyobj_def act_and_reply_def finish_def early_stop_def render_reply_def Let_def

text \<open>
  C4 (as amended). On a tick with a stride other than zero the hook first sets the
  pending action to \<open>hold\<close>, and it exchanges messages with the controller exactly
  when the tick counter is divisible by the stride or the termination flag is set. On
  such a tick, with a controller socket that is ready and an action message \<open>m\<close>
  waiting (after any number of well-formed render requests), the hook receives the
  requests, answers each render with its picture, receives \<open>m\<close> and sends the
  4-tuple, whose state and reward are those of the strategy with the action on
  \<open>hold\<close>, and only then takes the action of \<open>m\<close>; with nothing waiting it stays
  blocked in the receive. On every other tick it returns with the socket as it was,
  nothing sent and nothing received, the action on \<open>hold\<close> and the tick counter
  advanced. With a stride of zero the hook raises \<^verbatim>\<open>ZeroDivisionError\<close> with the
  socket as it was, whatever the flag.
\<close>

theorem exchange_on_stride_or_done:
  fixes a :: "'r analyzer"
  shows "if skip_frame (strategy a) = 0
         then fst (analyzer_next ops a) = Raised ZeroDivisionError \<and>
              an_socket (snd (analyzer_next ops a)) = an_socket a \<and>
              action (strategy (snd (analyzer_next ops a))) = PStr ''hold''
         else if iteration (strategy a) mod skip_frame (strategy a) = 0 \<or> get_done ops (strategy a)
         then (\<not> closed (an_socket a) \<and> \<not> owes_reply (an_socket a) \<and>
               (\<forall>r\<in>set rs. is_render r) \<and> inbox (an_socket a) = rs @ m # rest \<and>
               map_of m ''ctrl'' = None \<and> map_of m ''action'' = Some act \<longrightarrow>
                 fst (analyzer_next ops a) = Returned \<and>
                 an_socket (snd (analyzer_next ops a)) =
                   (an_socket a)
                     \<lparr>wire := wire (an_socket a) @
                              exchanges rs (fst (renderings ops (renderer a) (step_to_render a) rs)) @
                              [Recv (PDict m),
                               Send (PTuple [get_state ops ((strategy a)\<lparr>action := PStr ''hold''\<rparr>),
                                             get_reward ops ((strategy a)\<lparr>action := PStr ''hold''\<rparr>),
                                             PBool (get_done ops (strategy a)),
                                             PList [get_info ops (strategy a)]])],
                      owes_reply := False, inbox := rest\<rparr> \<and>
                 action (strategy (snd (analyzer_next ops a))) = act) \<and>
              (\<not> closed (an_socket a) \<and> \<not> owes_reply (an_socket a) \<and>
               inbox (an_socket a) = [] \<and> rcvtimeo (an_socket a) < 0 \<longrightarrow>
                 fst (analyzer_next ops a) = Blocked \<and>
                 an_socket (snd (analyzer_next ops a)) = an_socket a \<and>
                 action (strategy (snd (analyzer_next ops a))) = PStr ''hold'')
         else fst (analyzer_next ops a) = Returned \<and>
              an_socket (snd (analyzer_next ops a)) = an_socket a \<and>
              action (strategy (snd (analyzer_next ops a))) = PStr ''hold'' \<and>
              iteration (strategy (snd (analyzer_next ops a))) = iteration (strategy a) + 1"
proof (cases "skip_frame (strategy a) = 0")
  case True
  then show ?thesis by (simp add: analyzer_next_def Let_def)
next
  case stride: False
  show ?thesis
  proof (cases "iteration (strategy a) mod skip_frame (strategy a) = 0 \<or> get_done ops (strategy a)")
    case True
    let ?a2 = "a\<lparr>info_list := info_list a @ [get_info ops (strategy a)],
                 strategy := (strategy a)\<lparr>action := PStr ''hold''\<rparr>\<rparr>"
    note n = next_communicates[OF stride True]
    have turn: "fst (analyzer_next ops a) = Returned \<and>
                 an_socket (snd (analyzer_next ops a)) =
                   (an_socket a)
                     \<lparr>wire := wire (an_socket a) @
                              exchanges rs (fst (renderings ops (renderer a) (step_to_render a) rs)) @
                              [Recv (PDict m),
                               Send (PTuple [get_state ops ((strategy a)\<lparr>action := PStr ''hold''\<rparr>),
                                             get_reward ops ((strategy a)\<lparr>action := PStr ''hold''\<rparr>),
                                             PBool (get_done ops (strategy a)),
                                             PList [get_info ops (strategy a)]])],
                      owes_reply := False, inbox := rest\<rparr> \<and>
                 action (strategy (snd (analyzer_next ops a))) = act"
      if h: "\<not> closed (an_socket a)" "\<not> owes_reply (an_socket a)"
        "\<forall>r\<in>set rs. is_render r" "inbox (an_socket a) = rs @ m # rest"
        "map_of m ''ctrl'' = None" "map_of m ''action'' = Some act"
    proof -
      from await_after_renders_turn[of rs ?a2 m rest ops] h
      obtain \<rho> where
           e: "await_action ops ?a2 =
                 (Action_turn m,
                  ?a2\<lparr>an_socket := (an_socket ?a2)
                         \<lparr>wire := wire (an_socket ?a2) @
                                  exchanges rs (fst (renderings ops (renderer ?a2) (step_to_render ?a2) rs)) @
                                  [Recv (PDict m)],
                          owes_reply := True, inbox := rest\<rparr>,
                    renderer := \<rho>, message := Some m\<rparr>)"
        by auto
      have "communicate ops ?a2 (get_done ops (strategy a)) =
              act_and_reply ops
                (?a2\<lparr>an_socket := (an_socket ?a2)
                         \<lparr>wire := wire (an_socket ?a2) @
                                  exchanges rs (fst (renderings ops (renderer ?a2) (step_to_render ?a2) rs)) @
                                  [Recv (PDict m)],
                          owes_reply := True, inbox := rest\<rparr>,
                    renderer := \<rho>, message := Some m\<rparr>)
                m (get_raw_state ops (strategy ?a2)) (get_state ops (strategy ?a2))
                (get_reward ops (strategy ?a2)) (get_done ops (strategy a))"
        unfolding communicate_def e by (simp add: Let_def)
      with n h(1,6) show ?thesis
        by (simp add: act_and_reply_def send_pyobj_def finish_def early_stop_def Let_def
                 split: prod.splits)
    qed
    have wait: "fst (analyzer_next ops a) = Blocked \<and>
                 an_socket (snd (analyzer_next ops a)) = an_socket a \<and>
                 action (strategy (snd (analyzer_next ops a))) = PStr ''hold''"
      if h: "\<not> closed (an_socket a)" "\<not> owes_reply (an_socket a)"
        "inbox (an_socket a) = []" "rcvtimeo (an_socket a) < 0"
      unfolding n using h by (simp add: communicate_def await_action_def recv_pyobj_def Let_def)
    from True stride turn wait show ?thesis by simp
  next
    case False
    with stride show ?thesis
      by (simp add: analyzer_next_def Let_def finish_def)
  qed
qed

theorem exchange_on_stride_or_done_witness:
  "is_render [(''ctrl'', PStr ''_render''), (''mode'', PStr ''human'')] \<and>
   map_of [(''action'', PStr ''buy'')] ''ctrl'' = None \<and>
   map_of [(''action'', PStr ''buy'')] ''action'' = Some (PStr ''buy'') \<and>
   get_done demo_ops (strategy (demo_analyzer 3 2 [[(''action'', PStr ''buy'')]])) = False \<and>
   (3 :: int) mod 2 = 1 \<and>
   fst (analyzer_next demo_ops (demo_analyzer 3 2 [[(''action'', PStr ''buy'')]])) = Returned \<and>
   an_socket (snd (analyzer_next demo_ops (demo_analyzer 3 2 [[(''action'', PStr ''buy'')]]))) =
     demo_socket [[(''action'', PStr ''buy'')]] \<and>
   action (strategy (snd (analyzer_next demo_ops (demo_analyzer 3 2 [[(''action'', PStr ''buy'')]]))))
     = PStr ''hold'' \<and>
   (4 :: int) mod 2 = 0 \<and>
   fst (analyzer_next demo_ops (demo_analyzer 4 2
          [[(''ctrl'', PStr ''_render''), (''mode'', PStr ''human'')], [(''action'', PStr ''buy'')]]))
     = Returned \<and>
   an_socket (snd (analyzer_next demo_ops (demo_analyzer 4 2
          [[(''ctrl'', PStr ''_render''), (''mode'', PStr ''human'')], [(''action'', PStr ''buy'')]]))) =
     (demo_socket [])
       \<lparr>wire := [Recv (PDict [(''ctrl'', PStr ''_render''), (''mode'', PStr ''human'')]),
                 Send (PInt 0),
                 Recv (PDict [(''action'', PStr ''buy'')]),
                 Send (PTuple [PInt 4, PInt 0, PBool False, PList [PInt 4]])]\<rparr> \<and>
   action (strategy (snd (analyzer_next demo_ops (demo_analyzer 4 2
          [[(''ctrl'', PStr ''_render''), (''mode'', PStr ''human'')], [(''action'', PStr ''buy'')]]))))
     = PStr ''buy'' \<and>
   get_done done_ops (strategy (demo_analyzer 3 2 [[(''action'', PStr ''buy'')]])) \<and>
   fst (analyzer_next done_ops (demo_analyzer 3 2 [[(''action'', PStr ''buy'')]])) = Returned \<and>
   an_socket (snd (analyzer_next done_ops (demo_analyzer 3 2 [[(''action'', PStr ''buy'')]]))) =
     (demo_socket [])
       \<lparr>wire := [Recv (PDict [(''action'', PStr ''buy'')]),
                 Send (PTuple [PInt 3, PInt 0, PBool True, PList [PInt 3]])]\<rparr> \<and>
   fst (analyzer_next demo_ops (demo_analyzer 4 2 [])) = Blocked \<and>
   an_socket (snd (analyzer_next demo_ops (demo_analyzer 4 2 []))) = demo_socket []"
  using exchange_on_stride_or_done[where a = "demo_analyzer 3 2 [[(''action'', PStr ''buy'')]]"
          and ops = demo_ops and rs = "[]" and m = "[(''action'', PStr ''buy'')]" and rest = "[]"
          and act = "PStr ''buy''"]
        exchange_on_stride_or_done[where a = "demo_analyzer 4 2
            [[(''ctrl'', PStr ''_render''), (''mode'', PStr ''human'')], [(''action'', PStr ''buy'')]]"
          and ops = demo_ops and rs = "[[(''ctrl'', PStr ''_render''), (''mode'', PStr ''human'')]]"
          and m = "[(''action'', PStr ''buy'')]" and rest = "[]" and act = "PStr ''buy''"]
        exchange_on_stride_or_done[where a = "demo_analyzer 3 2 [[(''action'', PStr ''buy'')]]"
          and ops = done_ops and rs = "[]" and m = "[(''action'', PStr ''buy'')]" and rest = "[]"
          and act = "PStr ''buy''"]
        exchange_on_stride_or_done[where a = "demo_analyzer 4 2 []"
          and ops = demo_ops and rs = "[]" and m = "[]" and rest = "[]" and act = "PNone"]
  by (simp add: demo_defs done_ops_def is_render_def)

text \<open>
  C4 as the specification words it does not hold for a stride of zero: the termination
  flag is set and an action is waiting, yet the hook raises before it receives or sends
  anything.
\<close>

theorem zero_stride_raises_before_exchange:
  "get_done done_ops (strategy (demo_analyzer 5 0 [[(''action'', PStr ''buy'')]])) \<and>
   inbox (an_socket (demo_analyzer 5 0 [[(''action'', PStr ''buy'')]])) = [[(''action'', PStr ''buy'')]] \<and>
   fst (analyzer_next done_ops (demo_analyzer 5 0 [[(''action'', PStr ''buy'')]])) =
     Raised ZeroDivisionError \<and>
   an_socket (snd (analyzer_next done_ops (demo_analyzer 5 0 [[(''action'', PStr ''buy'')]]))) =
     an_socket (demo_analyzer 5 0 [[(''action'', PStr ''buy'')]]) \<and>
   wire (an_socket (snd (analyzer_next done_ops (demo_analyzer 5 0 [[(''action'', PStr ''buy'')]])))) = []"
  by (simp add: demo_defs done_ops_def analyzer_next_def Let_def)

text \<open>
  C5. On a communicated tick, after any number of well-formed render requests, a
  request whose \<open>ctrl\<close> value is neither \<^verbatim>\<open>_render\<close> nor \<^verbatim>\<open>_done\<close> is not passed
  over: the hook has no reply for it, so its next receive on the reply socket raises
  \<^verbatim>\<open>ZMQError\<close> (\<open>EFSM\<close>), which the hook does not catch. The call ends with that
  error, the request is the last thing on the wire, and the tick counter and the engine
  are left as they were: the episode does not go on.
\<close>

theorem unknown_ctrl_raises:
  fixes a :: "'r analyzer"
  assumes "skip_frame (strategy a) \<noteq> 0"
    and "iteration (strategy a) mod skip_frame (strategy a) = 0 \<or> get_done ops (strategy a)"
    and "\<not> closed (an_socket a)" "\<not> owes_reply (an_socket a)"
    and "\<forall>r\<in>set rs. is_render r"
    and "inbox (an_socket a) = rs @ m # rest"
    and "map_of m ''ctrl'' = Some c" "c \<noteq> PStr ''_render''" "c \<noteq> PStr ''_done''"
  shows "fst (analyzer_next ops a) = Raised (ZMQError EFSM) \<and>
         wire (an_socket (snd (analyzer_next ops a))) =
           wire (an_socket a) @
           exchanges rs (fst (renderings ops (renderer a) (step_to_render a) rs)) @
           [Recv (PDict m)] \<and>
         iteration (strategy (snd (analyzer_next ops a))) = iteration (strategy a) \<and>
         runstop_calls (snd (analyzer_next ops a)) = runstop_calls a"
proof -
  let ?a2 = "a\<lparr>info_list := info_list a @ [get_info ops (strategy a)],
               strategy := (strategy a)\<lparr>action := PStr ''hold''\<rparr>\<rparr>"
  note n = next_communicates[OF assms(1,2)]
  from await_after_renders_unknown[of rs ?a2 m rest c ops] assms
  obtain \<rho> where
       e: "await_action ops ?a2 =
             (Leave (Raised (ZMQError EFSM)),
              ?a2\<lparr>an_socket := (an_socket ?a2)
                     \<lparr>wire := wire (an_socket ?a2) @
                              exchanges rs (fst (renderings ops (renderer ?a2) (step_to_render ?a2) rs)) @
                              [Recv (PDict m)],
                                             owes_reply := True, inbox := rest\<rparr>,
                renderer := \<rho>, message := Some m\<rparr>)"
    by auto
  show ?thesis
    by (simp add: n communicate_def e)
qed

theorem unknown_ctrl_raises_witness:
  "skip_frame (strategy (demo_analyzer 0 1
       [[(''ctrl'', PStr ''_render''), (''mode'', PStr ''human'')], [(''ctrl'', PStr ''_getstat'')]])) \<noteq> 0 \<and>
   is_render [(''ctrl'', PStr ''_render''), (''mode'', PStr ''human'')] \<and>
   map_of [(''ctrl'', PStr ''_getstat'')] ''ctrl'' = Some (PStr ''_getstat'') \<and>
   fst (analyzer_next demo_ops (demo_analyzer 0 1
       [[(''ctrl'', PStr ''_render''), (''mode'', PStr ''human'')], [(''ctrl'', PStr ''_getstat'')]]))
     = Raised (ZMQError EFSM) \<and>
   wire (an_socket (snd (analyzer_next demo_ops (demo_analyzer 0 1
       [[(''ctrl'', PStr ''_render''), (''mode'', PStr ''human'')], [(''ctrl'', PStr ''_getstat'')]]))))
     = [Recv (PDict [(''ctrl'', PStr ''_render''), (''mode'', PStr ''human'')]), Send (PInt 0),
        Recv (PDict [(''ctrl'', PStr ''_getstat'')])]"
  using unknown_ctrl_raises[of "demo_analyzer 0 1
       [[(''ctrl'', PStr ''_render''), (''mode'', PStr ''human'')], [(''ctrl'', PStr ''_getstat'')]]"
       demo_ops "[[(''ctrl'', PStr ''_render''), (''mode'', PStr ''human'')]]"
       "[(''ctrl'', PStr ''_getstat'')]" "[]" "PStr ''_getstat''"]
  by (simp add: demo_defs is_render_def)

text \<open>
  C3. On a communicated tick every well-formed render request is answered with a
  rendering and does not take the agent's turn: with the requests \<open>rs\<close> in front of the
  message \<open>m\<close> that carries no \<open>ctrl\<close>, the call ends as it does without them, and it
  leaves the same analyzer (strategy with its pending and last action and its tick
  counter, batch, step backed up for rendering, counters) but for the renderer's own
  state and the wire, which holds the render exchanges followed by the same events
  \<open>new\<close>: the receipt of \<open>m\<close> and the reply to it.
\<close>

theorem render_keeps_the_turn:
  fixes a :: "'r analyzer"
  assumes "skip_frame (strategy a) \<noteq> 0"
    and "iteration (strategy a) mod skip_frame (strategy a) = 0 \<or> get_done ops (strategy a)"
    and "\<not> closed (an_socket a)" "\<not> owes_reply (an_socket a)"
    and "\<forall>r\<in>set rs. is_render r"
    and "map_of m ''ctrl'' = None"
  shows "\<exists>\<rho> new.
     fst (analyzer_next ops (a\<lparr>an_socket := (an_socket a)\<lparr>inbox := rs @ m # rest\<rparr>\<rparr>)) =
       fst (analyzer_next ops (a\<lparr>an_socket := (an_socket a)\<lparr>inbox := m # rest\<rparr>\<rparr>)) \<and>
     wire (an_socket (snd (analyzer_next ops (a\<lparr>an_socket := (an_socket a)\<lparr>inbox := m # rest\<rparr>\<rparr>)))) =
       wire (an_socket a) @ new \<and>
     snd (analyzer_next ops (a\<lparr>an_socket := (an_socket a)\<lparr>inbox := rs @ m # rest\<rparr>\<rparr>)) =
       (snd (analyzer_next ops (a\<lparr>an_socket := (an_socket a)\<lparr>inbox := m # rest\<rparr>\<rparr>)))
         \<lparr>an_socket :=
            (an_socket (snd (analyzer_next ops (a\<lparr>an_socket := (an_socket a)\<lparr>inbox := m # rest\<rparr>\<rparr>))))
              \<lparr>wire := wire (an_socket a) @
                       exchanges rs (fst (renderings ops (renderer a) (step_to_render a) rs)) @ new\<rparr>,
          renderer := \<rho>\<rparr>"
proof -
  let ?d = "get_done ops (strategy a)"
  let ?s2 = "(strategy a)\<lparr>action := PStr ''hold''\<rparr>"
  let ?il = "info_list a @ [get_info ops (strategy a)]"
  let ?ar = "a\<lparr>an_socket := (an_socket a)\<lparr>inbox := rs @ m # rest\<rparr>\<rparr>"
  let ?a0 = "a\<lparr>an_socket := (an_socket a)\<lparr>inbox := m # rest\<rparr>\<rparr>"
  let ?ar2 = "?ar\<lparr>info_list := info_list ?ar @ [get_info ops (strategy ?ar)],
                 strategy := (strategy ?ar)\<lparr>action := PStr ''hold''\<rparr>\<rparr>"
  let ?a02 = "?a0\<lparr>info_list := info_list ?a0 @ [get_info ops (strategy ?a0)],
                 strategy := (strategy ?a0)\<lparr>action := PStr ''hold''\<rparr>\<rparr>"
  let ?imgs = "fst (renderings ops (renderer a) (step_to_render a) rs)"
  let ?w = "wire (an_socket a)"
  have nr: "analyzer_next ops ?ar = communicate ops ?ar2 ?d"
    using next_communicates[of ?ar ops] assms(1,2) by simp
  have n0: "analyzer_next ops ?a0 = communicate ops ?a02 ?d"
    using next_communicates[of ?a0 ops] assms(1,2) by simp
  let ?a03 = "?a02\<lparr>an_socket := (an_socket ?a02)\<lparr>wire := wire (an_socket ?a02) @ [Recv (PDict m)],
                                           owes_reply := True, inbox := rest\<rparr>,
              message := Some m\<rparr>"
  have e0: "await_action ops ?a02 = (Action_turn m, ?a03)"
    by (rule await_action_turn) (use assms in simp_all)
  from await_after_renders_turn[of rs ?ar2 m rest ops] assms
  obtain \<rho> where er: "await_action ops ?ar2 =
             (Action_turn m,
              ?ar2\<lparr>an_socket := (an_socket ?ar2)
                    \<lparr>wire := wire (an_socket ?ar2) @
                             exchanges rs (fst (renderings ops (renderer ?ar2) (step_to_render ?ar2) rs)) @
                             [Recv (PDict m)],
                     owes_reply := True, inbox := rest\<rparr>,
                renderer := \<rho>, message := Some m\<rparr>)" (is "_ = (_, ?ar3)")
    by auto
  have rel: "?ar3 = ?a03\<lparr>an_socket := (an_socket ?a03)\<lparr>wire := ?w @ exchanges rs ?imgs @ [Recv (PDict m)]\<rparr>,
                        renderer := \<rho>\<rparr>"
    by simp
  let ?raw = "get_raw_state ops ?s2" and ?st = "get_state ops ?s2" and ?rw = "get_reward ops ?s2"
  have c0: "communicate ops ?a02 ?d = act_and_reply ops ?a03 m ?raw ?st ?rw ?d"
    unfolding communicate_def e0 by (simp add: Let_def)
  have cr: "communicate ops ?ar2 ?d = act_and_reply ops ?ar3 m ?raw ?st ?rw ?d"
    unfolding communicate_def er by (simp add: Let_def)
  from act_and_reply_frame[where ?a1.0 = ?a03 and ops = ops and m = m and raw = ?raw and st = ?st
         and rw = ?rw and d = ?d and w' = "?w @ exchanges rs ?imgs @ [Recv (PDict m)]" and \<rho> = \<rho>]
  obtain \<rho>' new where
    w0: "wire (an_socket (snd (act_and_reply ops ?a03 m ?raw ?st ?rw ?d))) = wire (an_socket ?a03) @ new"
    and fr: "act_and_reply ops
               (?a03\<lparr>an_socket := (an_socket ?a03)\<lparr>wire := ?w @ exchanges rs ?imgs @ [Recv (PDict m)]\<rparr>,
                     renderer := \<rho>\<rparr>) m ?raw ?st ?rw ?d =
       (fst (act_and_reply ops ?a03 m ?raw ?st ?rw ?d),
        (snd (act_and_reply ops ?a03 m ?raw ?st ?rw ?d))
          \<lparr>an_socket := (an_socket (snd (act_and_reply ops ?a03 m ?raw ?st ?rw ?d)))
               \<lparr>wire := (?w @ exchanges rs ?imgs @ [Recv (PDict m)]) @ new\<rparr>,
           renderer := \<rho>'\<rparr>)"
    using assms(3) by auto
  show ?thesis
    apply (rule exI[of _ \<rho>'])
    apply (rule exI[of _ "Recv (PDict m) # new"])
    apply (simp only: nr n0 c0 cr rel fr)
    using w0 apply simp
    done
qed

theorem render_keeps_the_turn_witness:
  "skip_frame (strategy (demo_analyzer 0 1 [])) \<noteq> 0 \<and>
   iteration (strategy (demo_analyzer 0 1 [])) mod skip_frame (strategy (demo_analyzer 0 1 [])) = 0 \<and>
   is_render [(''ctrl'', PStr ''_render''), (''mode'', PStr ''human'')] \<and>
   map_of [(''action'', PStr ''buy'')] ''ctrl'' = None \<and>
   (\<exists>\<rho> new.
      fst (analyzer_next demo_ops (demo_analyzer 0 1
             [[(''ctrl'', PStr ''_render''), (''mode'', PStr ''human'')], [(''action'', PStr ''buy'')]])) =
        fst (analyzer_next demo_ops (demo_analyzer 0 1 [[(''action'', PStr ''buy'')]])) \<and>
      wire (an_socket (snd (analyzer_next demo_ops (demo_analyzer 0 1 [[(''action'', PStr ''buy'')]]))))
        = new \<and>
      snd (analyzer_next demo_ops (demo_analyzer 0 1
             [[(''ctrl'', PStr ''_render''), (''mode'', PStr ''human'')], [(''action'', PStr ''buy'')]])) =
        (snd (analyzer_next demo_ops (demo_analyzer 0 1 [[(''action'', PStr ''buy'')]])))
          \<lparr>an_socket :=
             (an_socket (snd (analyzer_next demo_ops (demo_analyzer 0 1 [[(''action'', PStr ''buy'')]]))))
               \<lparr>wire := Recv (PDict [(''ctrl'', PStr ''_render''), (''mode'', PStr ''human'')]) #
                        Send (PInt 0) # new\<rparr>,
           renderer := \<rho>\<rparr>)"
  using render_keeps_the_turn[of "demo_analyzer 0 1 []" demo_ops
          "[[(''ctrl'', PStr ''_render''), (''mode'', PStr ''human'')]]"
          "[(''action'', PStr ''buy'')]" "[]"]
  by (simp add: demo_defs is_render_def)

text \<open>
  C2 (as amended). Every tick appends one info record to the batch. On a communicated
  tick on which an action arrives (after any number of well-formed render requests),
  the \<open>info\<close> field of the 4-tuple sent is the list of one record, the latest (that
  of this tick); the whole batch gathered since the last communicated tick goes into
  \<open>step_to_render\<close>, and the batch is empty after the reply. On a free-running tick
  the record is appended and nothing is sent.
\<close>

theorem info_reply_is_latest_record:
  fixes a :: "'r analyzer"
  assumes "skip_frame (strategy a) \<noteq> 0"
    and "\<not> closed (an_socket a)" "\<not> owes_reply (an_socket a)"
    and "\<forall>r\<in>set rs. is_render r"
    and "inbox (an_socket a) = rs @ m # rest"
    and "map_of m ''ctrl'' = None" "map_of m ''action'' = Some act"
  shows "if iteration (strategy a) mod skip_frame (strategy a) = 0 \<or> get_done ops (strategy a)
         then fst (analyzer_next ops a) = Returned \<and>
              wire (an_socket (snd (analyzer_next ops a))) =
                wire (an_socket a) @
                exchanges rs (fst (renderings ops (renderer a) (step_to_render a) rs)) @
                [Recv (PDict m),
                 Send (PTuple [get_state ops ((strategy a)\<lparr>action := PStr ''hold''\<rparr>),
                               get_reward ops ((strategy a)\<lparr>action := PStr ''hold''\<rparr>),
                               PBool (get_done ops (strategy a)),
                               PList [get_info ops (strategy a)]])] \<and>
              step_to_render (snd (analyzer_next ops a)) =
                PTuple [PDict [(''human'', get_raw_state ops ((strategy a)\<lparr>action := PStr ''hold''\<rparr>))],
                        get_state ops ((strategy a)\<lparr>action := PStr ''hold''\<rparr>),
                        get_reward ops ((strategy a)\<lparr>action := PStr ''hold''\<rparr>),
                        PBool (get_done ops (strategy a)),
                        PList (info_list a @ [get_info ops (strategy a)])] \<and>
              info_list (snd (analyzer_next ops a)) = []
         else fst (analyzer_next ops a) = Returned \<and>
              info_list (snd (analyzer_next ops a)) = info_list a @ [get_info ops (strategy a)] \<and>
              an_socket (snd (analyzer_next ops a)) = an_socket a"
proof (cases "iteration (strategy a) mod skip_frame (strategy a) = 0 \<or> get_done ops (strategy a)")
  case True
  let ?a2 = "a\<lparr>info_list := info_list a @ [get_info ops (strategy a)],
               strategy := (strategy a)\<lparr>action := PStr ''hold''\<rparr>\<rparr>"
  note n = next_communicates[OF assms(1) True]
  from await_after_renders_turn[of rs ?a2 m rest ops] assms
  obtain \<rho> where
       e: "await_action ops ?a2 =
             (Action_turn m,
              ?a2\<lparr>an_socket := (an_socket ?a2)
                     \<lparr>wire := wire (an_socket ?a2) @
                              exchanges rs (fst (renderings ops (renderer ?a2) (step_to_render ?a2) rs)) @
                              [Recv (PDict m)],
                      owes_reply := True, inbox := rest\<rparr>,
                renderer := \<rho>, message := Some m\<rparr>)"
    by auto
  have "communicate ops ?a2 (get_done ops (strategy a)) =
          act_and_reply ops
            (?a2\<lparr>an_socket := (an_socket ?a2)
                     \<lparr>wire := wire (an_socket ?a2) @
                              exchanges rs (fst (renderings ops (renderer ?a2) (step_to_render ?a2) rs)) @
                              [Recv (PDict m)],
                      owes_reply := True, inbox := rest\<rparr>,
                renderer := \<rho>, message := Some m\<rparr>)
            m (get_raw_state ops (strategy ?a2)) (get_state ops (strategy ?a2))
            (get_reward ops (strategy ?a2)) (get_done ops (strategy a))"
    unfolding communicate_def e by (simp add: Let_def)
  with True n assms(2,7) show ?thesis
    by (simp add: act_and_reply_def send_pyobj_def finish_def early_stop_def Let_def
             split: prod.splits)
next
  case False
  with assms(1) show ?thesis
    by (simp add: analyzer_next_def Let_def finish_def)
qed

theorem info_reply_is_latest_record_witness:
  "skip_frame (strategy ((demo_analyzer 2 2 [[(''action'', PStr ''buy'')]])\<lparr>info_list := [PInt 1]\<rparr>)) \<noteq> 0 \<and>
   map_of [(''action'', PStr ''buy'')] ''ctrl'' = None \<and>
   map_of [(''action'', PStr ''buy'')] ''action'' = Some (PStr ''buy'') \<and>
   fst (analyzer_next demo_ops ((demo_analyzer 2 2 [[(''action'', PStr ''buy'')]])\<lparr>info_list := [PInt 1]\<rparr>))
     = Returned \<and>
   wire (an_socket (snd (analyzer_next demo_ops
       ((demo_analyzer 2 2 [[(''action'', PStr ''buy'')]])\<lparr>info_list := [PInt 1]\<rparr>)))) =
     [Recv (PDict [(''action'', PStr ''buy'')]),
      Send (PTuple [PInt 2, PInt 0, PBool False, PList [PInt 2]])] \<and>
   step_to_render (snd (analyzer_next demo_ops
       ((demo_analyzer 2 2 [[(''action'', PStr ''buy'')]])\<lparr>info_list := [PInt 1]\<rparr>))) =
     PTuple [PDict [(''human'', PNone)], PInt 2, PInt 0, PBool False, PList [PInt 1, PInt 2]] \<and>
   info_list (snd (analyzer_next demo_ops
       ((demo_analyzer 2 2 [[(''action'', PStr ''buy'')]])\<lparr>info_list := [PInt 1]\<rparr>))) = []"
  using info_reply_is_latest_record[of "(demo_analyzer 2 2 [[(''action'', PStr ''buy'')]])\<lparr>info_list := [PInt 1]\<rparr>"
          "[]" "[(''action'', PStr ''buy'')]" "[]" "PStr ''buy''" demo_ops]
  by (simp add: demo_defs)

text \<open>
  C2 as the specification words it does not hold: with a stride of 2, the tick with counter 1 runs free and
  the tick with counter 2 communicates; the batch then holds the records of both
  ticks, the tuple sent only that of the second.
\<close>

theorem info_reply_not_whole_batch:
  "fst (analyzer_next demo_ops (demo_analyzer 1 2 [[(''action'', PStr ''buy'')]])) = Returned \<and>
   info_list (snd (analyzer_next demo_ops (demo_analyzer 1 2 [[(''action'', PStr ''buy'')]]))) = [PInt 1] \<and>
   wire (an_socket (snd (analyzer_next demo_ops (demo_analyzer 1 2 [[(''action'', PStr ''buy'')]])))) = [] \<and>
   wire (an_socket (snd (analyzer_next demo_ops
      (snd (analyzer_next demo_ops (demo_analyzer 1 2 [[(''action'', PStr ''buy'')]])))))) =
     [Recv (PDict [(''action'', PStr ''buy'')]),
      Send (PTuple [PInt 2, PInt 0, PBool False, PList [PInt 2]])] \<and>
   step_to_render (snd (analyzer_next demo_ops
      (snd (analyzer_next demo_ops (demo_analyzer 1 2 [[(''action'', PStr ''buy'')]]))))) =
     PTuple [PDict [(''human'', PNone)], PInt 2, PInt 0, PBool False, PList [PInt 1, PInt 2]] \<and>
   PList [PInt 2] \<noteq> PList [PInt 1, PInt 2]"
  by (simp add: demo_defs tick_defs control_actions.simps)

text \<open>
  C6 as the specification words it does not hold in episode mode: for a request with
  neither \<open>ctrl\<close> nor \<open>action\<close> the hook sends no reply and raises
  \<^verbatim>\<open>AssertionError\<close>.
\<close>

theorem missing_action_is_fatal_in_episode:
  "fst (analyzer_next demo_ops (demo_analyzer 0 1 [[(''foo'', PInt 1)]])) =
     Raised (AssertionError (''No <action> key recieved:'' @ [CHR 0x0A] @ ''COMM recieved: <obj>'')) \<and>
   wire (an_socket (snd (analyzer_next demo_ops (demo_analyzer 0 1 [[(''foo'', PInt 1)]])))) =
     [Recv (PDict [(''foo'', PInt 1)])]"
  by (simp add: demo_defs tick_defs control_actions.simps)

section \<open>Properties of the control mode\<close>

declare control_mode.simps [simp del]

lemma control_mode_step:
  assumes "\<not> closed (socket sv)" "\<not> owes_reply (socket sv)" "inbox (socket sv) = m # q"
  shows "control_mode ops sv =
           (case control_step ops
                   (sv\<lparr>socket := (socket sv)\<lparr>wire := wire (socket sv) @ [Recv (PDict m)],
                                               owes_reply := True, inbox := q\<rparr>\<rparr>) m of
              (Some x, sv1) \<Rightarrow> (x, sv1)
            | (None, sv1) \<Rightarrow> control_mode ops sv1)"
  using assms by (subst control_mode.simps) (simp add: recv_pyobj_def)

lemma control_mode_empty:
  assumes "\<not> closed (socket sv)" "\<not> owes_reply (socket sv)" "inbox (socket sv) = []"
    and "rcvtimeo (socket sv) < 0"
  shows "control_mode ops sv = (In_control, sv)"
  using assms by (subst control_mode.simps) (simp add: recv_pyobj_def)

lemma control_step_stop:
  assumes "owes_reply (socket sv)" "\<not> closed (socket sv)"
    and "map_of m ''ctrl'' = Some (PStr ''_stop'')"
  shows "control_step ops sv m =
           (Some Terminated,
            sv\<lparr>socket := (socket sv)\<lparr>wire := wire (socket sv) @ [Send (PStr ''Exiting.'')],
                                      owes_reply := False, closed := True\<rparr>,
               context_alive := False\<rparr>)"
  using assms by (simp add: control_step_def reply_def send_pyobj_def)

lemma control_step_reset:
  assumes "owes_reply (socket sv)" "\<not> closed (socket sv)"
    and "map_of m ''ctrl'' = Some (PStr ''_reset'')" "map_of m ''kwargs'' = Some kw"
  shows "control_step ops sv m =
           (Some (Episode m),
            sv\<lparr>socket := (socket sv)
                  \<lparr>wire := wire (socket sv) @
                           [Send (PStr (''Preparing new episode with kwargs: '' @ str_of ops kw))],
                   owes_reply := False\<rparr>\<rparr>)"
  using assms by (simp add: control_step_def reply_def send_pyobj_def)

lemma reply_ok:
  assumes "owes_reply (socket sv)" "\<not> closed (socket sv)"
  shows "reply sv v after =
           (after, sv\<lparr>socket := (socket sv)\<lparr>wire := wire (socket sv) @ [Send v],
                                            owes_reply := False\<rparr>\<rparr>)"
  using assms by (simp add: reply_def send_pyobj_def)

lemma control_step_no_ctrl:
  assumes "owes_reply (socket sv)" "\<not> closed (socket sv)" "map_of m ''ctrl'' = None"
  shows "control_step ops sv m =
           (None, sv\<lparr>socket := (socket sv)
                \<lparr>wire := wire (socket sv) @
                   [Send (PStr (''No <ctrl> key received:'' @
                     (''Control mode: received <'' @ str_of ops (PDict m) @ ''>'') @ [CHR 0x0A] @
                     ''Hint: forgot to call reset()?''))],
                 owes_reply := False\<rparr>\<rparr>)"
  using assms(3) by (simp add: control_step_def reply_ok[OF assms(1,2)] Let_def)

lemma control_step_getstat:
  assumes "owes_reply (socket sv)" "\<not> closed (socket sv)"
    and "map_of m ''ctrl'' = Some (PStr ''_getstat'')"
  shows "control_step ops sv m =
           (None, sv\<lparr>socket := (socket sv)
                \<lparr>wire := wire (socket sv) @ [Send (PDict (episode_result sv))],
                 owes_reply := False\<rparr>\<rparr>)"
  using assms(3) by (simp add: control_step_def reply_ok[OF assms(1,2)] Let_def)

lemma control_step_render:
  assumes "owes_reply (socket sv)" "\<not> closed (socket sv)"
    and "map_of m ''ctrl'' = Some (PStr ''_render'')" "map_of m ''mode'' = Some md"
  shows "control_step ops sv m =
           (None, sv\<lparr>socket := (socket sv)
                \<lparr>wire := wire (socket sv) @ [Send (fst (render_fn ops (render sv) md None None))],
                 owes_reply := False\<rparr>,
              render := snd (render_fn ops (render sv) md None None)\<rparr>)"
  using assms by (simp add: control_step_def reply_ok Let_def split: prod.splits)

lemma control_step_other:
  assumes "owes_reply (socket sv)" "\<not> closed (socket sv)"
    and "map_of m ''ctrl'' = Some c"
    and "c \<noteq> PStr ''_stop''" "c \<noteq> PStr ''_reset''" "c \<noteq> PStr ''_getstat''"
    and "c \<noteq> PStr ''_render'' \<or> map_of m ''mode'' = None"
  shows "control_step ops sv m =
           (None, sv\<lparr>socket := (socket sv)
                \<lparr>wire := wire (socket sv) @
                   [Send (PDict [(''ctrl'',
                      PStr ''send control keys: <_reset>, <_getstat>, <_render>, <_stop>.'')])],
                 owes_reply := False\<rparr>\<rparr>)"
proof (cases "c = PStr ''_render''")
  case True
  with assms(7) have "map_of m ''mode'' = None" by simp
  with True assms(3) show ?thesis
    by (simp add: control_step_def reply_ok[OF assms(1,2)] Let_def)
next
  case False
  with assms(3-6) show ?thesis
    by (simp add: control_step_def reply_ok[OF assms(1,2)] Let_def)
qed

lemma control_step_in_place:
  assumes "owes_reply (socket sv)" "\<not> closed (socket sv)" "\<not> leaves_control m"
  shows "\<exists>v r. control_step ops sv m =
           (None, sv\<lparr>socket := (socket sv)\<lparr>wire := wire (socket sv) @ [Send v],
                                            owes_reply := False\<rparr>,
                     render := r\<rparr>)"
proof -
  have same: "\<And>x. sv\<lparr>socket := x\<rparr> = sv\<lparr>socket := x, render := render sv\<rparr>"
    by simp
  show ?thesis
  proof (cases "map_of m ''ctrl''")
    case None
    from control_step_no_ctrl[OF assms(1,2) None, of ops] show ?thesis
      by (metis same)
  next
    case (Some c)
    with assms(3) have c: "c \<noteq> PStr ''_stop''" "c \<noteq> PStr ''_reset''"
      by (auto simp: leaves_control_def)
    consider (stat) "c = PStr ''_getstat''"
      | (rend) md where "c = PStr ''_render''" "map_of m ''mode'' = Some md"
      | (other) "c \<noteq> PStr ''_getstat''" "c \<noteq> PStr ''_render'' \<or> map_of m ''mode'' = None"
      by blast
    then show ?thesis
    proof cases
      case stat
      from control_step_getstat[OF assms(1,2), of m ops] Some stat show ?thesis
        by (metis same)
    next
      case rend
      from control_step_render[OF assms(1,2), of m md ops] Some rend show ?thesis
        by blast
    next
      case other
      from control_step_other[OF assms(1,2) Some c other, of ops] show ?thesis
        by (metis same)
    qed
  qed
qed

lemma control_mode_alternates_aux:
  fixes sv :: "'r session"
  assumes "inbox (socket sv) = xs"
    and "\<not> closed (socket sv)" "\<not> owes_reply (socket sv)" "rcvtimeo (socket sv) < 0"
    and "\<forall>m\<in>set xs. well_formed_request m"
  shows "\<exists>replies.
     (case dropWhile (\<lambda>m. \<not> leaves_control m) xs of
        [] \<Rightarrow> fst (control_mode ops sv) = In_control \<and>
              length replies = length xs \<and>
              wire (socket (snd (control_mode ops sv))) = wire (socket sv) @ exchanges xs replies \<and>
              inbox (socket (snd (control_mode ops sv))) = []
      | m # q \<Rightarrow>
          fst (control_mode ops sv) =
            (if map_of m ''ctrl'' = Some (PStr ''_stop'') then Terminated else Episode m) \<and>
          length replies = Suc (length (takeWhile (\<lambda>m. \<not> leaves_control m) xs)) \<and>
          wire (socket (snd (control_mode ops sv))) =
            wire (socket sv) @ exchanges (takeWhile (\<lambda>m. \<not> leaves_control m) xs @ [m]) replies \<and>
          inbox (socket (snd (control_mode ops sv))) = q)"
  using assms
proof (induction xs arbitrary: sv)
  case Nil
  then have "control_mode ops sv = (In_control, sv)"
    by (intro control_mode_empty) simp_all
  with Nil show ?case by simp
next
  case (Cons m q)
  let ?sv0 = "sv\<lparr>socket := (socket sv)\<lparr>wire := wire (socket sv) @ [Recv (PDict m)],
                                          owes_reply := True, inbox := q\<rparr>\<rparr>"
  have step: "control_mode ops sv =
           (case control_step ops ?sv0 m of
              (Some x, sv1) \<Rightarrow> (x, sv1)
            | (None, sv1) \<Rightarrow> control_mode ops sv1)"
    by (rule control_mode_step) (use Cons.prems in simp_all)
  have o: "owes_reply (socket ?sv0)" "\<not> closed (socket ?sv0)"
    using Cons.prems by simp_all
  show ?case
  proof (cases "leaves_control m")
    case True
    show ?thesis
    proof (cases "map_of m ''ctrl'' = Some (PStr ''_stop'')")
      case stop: True
      from control_step_stop[OF o stop, of ops] step True stop show ?thesis
        by (intro exI[of _ "[PStr ''Exiting.'']"]) simp
    next
      case False
      with True have reset: "map_of m ''ctrl'' = Some (PStr ''_reset'')"
        by (simp add: leaves_control_def)
      with Cons.prems(5) obtain kw where kw: "map_of m ''kwargs'' = Some kw"
        by (auto simp: well_formed_request_def)
      from control_step_reset[OF o reset kw, of ops] step True False show ?thesis
        by (intro exI[of _ "[PStr (''Preparing new episode with kwargs: '' @ str_of ops kw)]"]) simp
    qed
  next
    case False
    from control_step_in_place[OF o False, of ops]
    obtain v r where cs: "control_step ops ?sv0 m =
           (None, ?sv0\<lparr>socket := (socket ?sv0)\<lparr>wire := wire (socket ?sv0) @ [Send v],
                                            owes_reply := False\<rparr>,
                     render := r\<rparr>)" (is "_ = (None, ?sv1)")
      by blast
    have eq: "control_mode ops sv = control_mode ops ?sv1"
      unfolding step cs by simp
    have "\<exists>replies.
     (case dropWhile (\<lambda>m. \<not> leaves_control m) q of
        [] \<Rightarrow> fst (control_mode ops ?sv1) = In_control \<and>
              length replies = length q \<and>
              wire (socket (snd (control_mode ops ?sv1))) = wire (socket ?sv1) @ exchanges q replies \<and>
              inbox (socket (snd (control_mode ops ?sv1))) = []
      | m # q' \<Rightarrow>
          fst (control_mode ops ?sv1) =
            (if map_of m ''ctrl'' = Some (PStr ''_stop'') then Terminated else Episode m) \<and>
          length replies = Suc (length (takeWhile (\<lambda>m. \<not> leaves_control m) q)) \<and>
          wire (socket (snd (control_mode ops ?sv1))) =
            wire (socket ?sv1) @ exchanges (takeWhile (\<lambda>m. \<not> leaves_control m) q @ [m]) replies \<and>
          inbox (socket (snd (control_mode ops ?sv1))) = q')"
      by (rule Cons.IH) (use Cons.prems in simp_all)
    then obtain replies where IH:
     "(case dropWhile (\<lambda>m. \<not> leaves_control m) q of
        [] \<Rightarrow> fst (control_mode ops ?sv1) = In_control \<and>
              length replies = length q \<and>
              wire (socket (snd (control_mode ops ?sv1))) = wire (socket ?sv1) @ exchanges q replies \<and>
              inbox (socket (snd (control_mode ops ?sv1))) = []
      | m # q' \<Rightarrow>
          fst (control_mode ops ?sv1) =
            (if map_of m ''ctrl'' = Some (PStr ''_stop'') then Terminated else Episode m) \<and>
          length replies = Suc (length (takeWhile (\<lambda>m. \<not> leaves_control m) q)) \<and>
          wire (socket (snd (control_mode ops ?sv1))) =
            wire (socket ?sv1) @ exchanges (takeWhile (\<lambda>m. \<not> leaves_control m) q @ [m]) replies \<and>
          inbox (socket (snd (control_mode ops ?sv1))) = q')"
      by blast
    have d: "dropWhile (\<lambda>m. \<not> leaves_control m) (m # q) = dropWhile (\<lambda>m. \<not> leaves_control m) q"
      "takeWhile (\<lambda>m. \<not> leaves_control m) (m # q) = m # takeWhile (\<lambda>m. \<not> leaves_control m) q"
      using False by simp_all
    show ?thesis
    proof (cases "dropWhile (\<lambda>m. \<not> leaves_control m) q")
      case Nil
      from IH[unfolded Nil] show ?thesis
        unfolding eq d Nil by (intro exI[of _ "v # replies"]) simp
    next
      case (Cons m' q')
      from IH[unfolded Cons] show ?thesis
        unfolding eq d Cons by (intro exI[of _ "v # replies"]) simp
    qed
  qed
qed

lemmas server_defs = demo_session_def run_start_def init_def comm_with_timeout_def
  req_send_pyobj_def req_recv_pyobj_def

lemma demo_session_socket:
  "socket (demo_session requests) = demo_socket requests"
  by (simp add: server_defs demo_defs Let_def)

text \<open>
  C1. In control mode, with requests that are well formed (a \<^verbatim>\<open>_reset\<close> carries
  \<open>kwargs\<close>), every request received is followed by exactly one reply before the next
  receive, and the loop is left only by \<^verbatim>\<open>_stop\<close> (terminated) and by \<^verbatim>\<open>_reset\<close>
  (into the episode): the requests before the first of these two are all answered in
  place, the wire holds request and reply in turn for each request served, and with
  no such request in the queue the session is still in control mode, waiting.
\<close>

theorem control_mode_alternates:
  fixes sv :: "'r session"
  assumes "\<not> closed (socket sv)" "\<not> owes_reply (socket sv)" "rcvtimeo (socket sv) < 0"
    and "\<forall>m\<in>set (inbox (socket sv)). well_formed_request m"
  shows "\<exists>replies.
     (case dropWhile (\<lambda>m. \<not> leaves_control m) (inbox (socket sv)) of
        [] \<Rightarrow> fst (control_mode ops sv) = In_control \<and>
              length replies = length (inbox (socket sv)) \<and>
              wire (socket (snd (control_mode ops sv))) =
                wire (socket sv) @ exchanges (inbox (socket sv)) replies \<and>
              inbox (socket (snd (control_mode ops sv))) = []
      | m # q \<Rightarrow>
          fst (control_mode ops sv) =
            (if map_of m ''ctrl'' = Some (PStr ''_stop'') then Terminated else Episode m) \<and>
          length replies =
            Suc (length (takeWhile (\<lambda>m. \<not> leaves_control m) (inbox (socket sv)))) \<and>
          wire (socket (snd (control_mode ops sv))) =
            wire (socket sv) @
            exchanges (takeWhile (\<lambda>m. \<not> leaves_control m) (inbox (socket sv)) @ [m]) replies \<and>
          inbox (socket (snd (control_mode ops sv))) = q)"
  using control_mode_alternates_aux[OF refl assms] .

theorem control_mode_alternates_witness:
  "\<not> closed (socket (demo_session
      [[], [(''ctrl'', PStr ''_getstat'')], [(''ctrl'', PStr ''_render''), (''mode'', PStr ''human'')],
       [(''ctrl'', PStr ''_render'')], [(''ctrl'', PStr ''_reset''), (''kwargs'', PDict [])],
       [(''ctrl'', PStr ''_stop'')]])) \<and>
   rcvtimeo (socket (demo_session
      [[], [(''ctrl'', PStr ''_getstat'')], [(''ctrl'', PStr ''_render''), (''mode'', PStr ''human'')],
       [(''ctrl'', PStr ''_render'')], [(''ctrl'', PStr ''_reset''), (''kwargs'', PDict [])],
       [(''ctrl'', PStr ''_stop'')]])) < 0 \<and>
   well_formed_request [(''ctrl'', PStr ''_reset''), (''kwargs'', PDict [])] \<and>
   (\<exists>replies. length replies = 5 \<and>
      fst (control_mode demo_ops (demo_session
        [[], [(''ctrl'', PStr ''_getstat'')], [(''ctrl'', PStr ''_render''), (''mode'', PStr ''human'')],
         [(''ctrl'', PStr ''_render'')], [(''ctrl'', PStr ''_reset''), (''kwargs'', PDict [])],
         [(''ctrl'', PStr ''_stop'')]])) =
        Episode [(''ctrl'', PStr ''_reset''), (''kwargs'', PDict [])] \<and>
      wire (socket (snd (control_mode demo_ops (demo_session
        [[], [(''ctrl'', PStr ''_getstat'')], [(''ctrl'', PStr ''_render''), (''mode'', PStr ''human'')],
         [(''ctrl'', PStr ''_render'')], [(''ctrl'', PStr ''_reset''), (''kwargs'', PDict [])],
         [(''ctrl'', PStr ''_stop'')]])))) =
        exchanges
          [[], [(''ctrl'', PStr ''_getstat'')], [(''ctrl'', PStr ''_render''), (''mode'', PStr ''human'')],
           [(''ctrl'', PStr ''_render'')], [(''ctrl'', PStr ''_reset''), (''kwargs'', PDict [])]]
          replies \<and>
      inbox (socket (snd (control_mode demo_ops (demo_session
        [[], [(''ctrl'', PStr ''_getstat'')], [(''ctrl'', PStr ''_render''), (''mode'', PStr ''human'')],
         [(''ctrl'', PStr ''_render'')], [(''ctrl'', PStr ''_reset''), (''kwargs'', PDict [])],
         [(''ctrl'', PStr ''_stop'')]])))) = [[(''ctrl'', PStr ''_stop'')]])"
  using control_mode_alternates[of "demo_session
      [[], [(''ctrl'', PStr ''_getstat'')], [(''ctrl'', PStr ''_render''), (''mode'', PStr ''human'')],
       [(''ctrl'', PStr ''_render'')], [(''ctrl'', PStr ''_reset''), (''kwargs'', PDict [])],
       [(''ctrl'', PStr ''_stop'')]]" demo_ops]
  by (simp add: demo_session_socket demo_socket_def leaves_control_def well_formed_request_def
        eval_nat_numeral)

text \<open>
  C9 (as amended). On \<^verbatim>\<open>_stop\<close> in control mode the session replies with the farewell
  string \<^verbatim>\<open>Exiting.\<close>, closes the controller socket, destroys that socket's context
  and terminates; the data socket and its context are left as they are.
\<close>

theorem stop_closes_controller_channel:
  fixes sv :: "'r session"
  assumes "\<not> closed (socket sv)" "\<not> owes_reply (socket sv)" "inbox (socket sv) = m # q"
    and "map_of m ''ctrl'' = Some (PStr ''_stop'')"
  shows "control_mode ops sv =
           (Terminated,
            sv\<lparr>socket := (socket sv)
                  \<lparr>wire := wire (socket sv) @ [Recv (PDict m), Send (PStr ''Exiting.'')],
                   owes_reply := False, closed := True, inbox := q\<rparr>,
               context_alive := False\<rparr>) \<and>
         data_socket (snd (control_mode ops sv)) = data_socket sv \<and>
         data_context_alive (snd (control_mode ops sv)) = data_context_alive sv"
proof -
  let ?sv0 = "sv\<lparr>socket := (socket sv)\<lparr>wire := wire (socket sv) @ [Recv (PDict m)],
                                          owes_reply := True, inbox := q\<rparr>\<rparr>"
  have o: "owes_reply (socket ?sv0)" "\<not> closed (socket ?sv0)"
    using assms by simp_all
  show ?thesis
    unfolding control_mode_step[OF assms(1-3)] control_step_stop[OF o assms(4)]
    by simp
qed

theorem stop_closes_controller_channel_witness:
  "\<not> closed (socket (demo_session [[(''ctrl'', PStr ''_stop'')]])) \<and>
   \<not> owes_reply (socket (demo_session [[(''ctrl'', PStr ''_stop'')]])) \<and>
   inbox (socket (demo_session [[(''ctrl'', PStr ''_stop'')]])) = [[(''ctrl'', PStr ''_stop'')]] \<and>
   map_of [(''ctrl'', PStr ''_stop'')] ''ctrl'' = Some (PStr ''_stop'') \<and>
   fst (control_mode demo_ops (demo_session [[(''ctrl'', PStr ''_stop'')]])) = Terminated \<and>
   wire (socket (snd (control_mode demo_ops (demo_session [[(''ctrl'', PStr ''_stop'')]])))) =
     [Recv (PDict [(''ctrl'', PStr ''_stop'')]), Send (PStr ''Exiting.'')] \<and>
   closed (socket (snd (control_mode demo_ops (demo_session [[(''ctrl'', PStr ''_stop'')]])))) \<and>
   data_socket (snd (control_mode demo_ops (demo_session [[(''ctrl'', PStr ''_stop'')]]))) =
     data_socket (demo_session [[(''ctrl'', PStr ''_stop'')]])"
  using stop_closes_controller_channel[of "demo_session [[(''ctrl'', PStr ''_stop'')]]"
          "[(''ctrl'', PStr ''_stop'')]" "[]" demo_ops]
  by (simp add: demo_session_socket demo_socket_def)

text \<open>
  C9 as the specification words it does not hold: after \<^verbatim>\<open>_stop\<close> the data socket is not closed and its
  context is alive.
\<close>

theorem stop_leaves_data_channel_open:
  "fst (control_mode demo_ops (demo_session [[(''ctrl'', PStr ''_stop'')]])) = Terminated \<and>
   closed (socket (snd (control_mode demo_ops (demo_session [[(''ctrl'', PStr ''_stop'')]])))) \<and>
   \<not> closed (data_socket (snd (control_mode demo_ops (demo_session [[(''ctrl'', PStr ''_stop'')]])))) \<and>
   data_context_alive (snd (control_mode demo_ops (demo_session [[(''ctrl'', PStr ''_stop'')]])))"
proof -
  have s: "\<not> closed (socket (demo_session [[(''ctrl'', PStr ''_stop'')]]))"
     "\<not> owes_reply (socket (demo_session [[(''ctrl'', PStr ''_stop'')]]))"
     "inbox (socket (demo_session [[(''ctrl'', PStr ''_stop'')]])) = [(''ctrl'', PStr ''_stop'')] # []"
    by (simp_all add: demo_session_socket demo_socket_def)
  have o: "owes_reply (socket ((demo_session [[(''ctrl'', PStr ''_stop'')]])
             \<lparr>socket := (socket (demo_session [[(''ctrl'', PStr ''_stop'')]]))
                \<lparr>wire := wire (socket (demo_session [[(''ctrl'', PStr ''_stop'')]])) @
                           [Recv (PDict [(''ctrl'', PStr ''_stop'')])],
                 owes_reply := True, inbox := []\<rparr>\<rparr>))"
    "\<not> closed (socket ((demo_session [[(''ctrl'', PStr ''_stop'')]])
             \<lparr>socket := (socket (demo_session [[(''ctrl'', PStr ''_stop'')]]))
                \<lparr>wire := wire (socket (demo_session [[(''ctrl'', PStr ''_stop'')]])) @
                           [Recv (PDict [(''ctrl'', PStr ''_stop'')])],
                 owes_reply := True, inbox := []\<rparr>\<rparr>))"
    using s by simp_all
  have d: "\<not> closed (data_socket (demo_session [[(''ctrl'', PStr ''_stop'')]]))"
    "data_context_alive (demo_session [[(''ctrl'', PStr ''_stop'')]])"
    by (simp_all add: server_defs Let_def)
  show ?thesis
    unfolding control_mode_step[OF s] control_step_stop[OF o, of "[(''ctrl'', PStr ''_stop'')]" demo_ops, simplified]
    using d by simp
qed

text \<open>
  C6 (as amended). A request with neither \<open>ctrl\<close> nor \<open>action\<close> is answered with a
  diagnostic string in control mode, and the session goes on in control mode with the
  next request. In episode mode the hook sends no reply to it and raises
  \<^verbatim>\<open>AssertionError\<close>, which ends the run.
\<close>

theorem malformed_request:
  fixes sv :: "'r session" and a :: "'r analyzer"
  assumes "map_of m ''ctrl'' = None" "map_of m ''action'' = None"
    and "\<not> closed (socket sv)" "\<not> owes_reply (socket sv)" "inbox (socket sv) = m # q"
    and "skip_frame (strategy a) \<noteq> 0"
    and "iteration (strategy a) mod skip_frame (strategy a) = 0 \<or> get_done ops (strategy a)"
    and "\<not> closed (an_socket a)" "\<not> owes_reply (an_socket a)"
    and "\<forall>r\<in>set rs. is_render r" "inbox (an_socket a) = rs @ m # rest"
  shows "control_mode ops sv =
           control_mode ops
             (sv\<lparr>socket := (socket sv)
                   \<lparr>wire := wire (socket sv) @
                      [Recv (PDict m),
                       Send (PStr (''No <ctrl> key received:'' @
                         (''Control mode: received <'' @ str_of ops (PDict m) @ ''>'') @ [CHR 0x0A] @
                         ''Hint: forgot to call reset()?''))],
                    owes_reply := False, inbox := q\<rparr>\<rparr>) \<and>
         fst (analyzer_next ops a) =
           Raised (AssertionError
                     (''No <action> key recieved:'' @ [CHR 0x0A] @
                      ''COMM recieved: '' @ str_of ops (PDict m))) \<and>
         wire (an_socket (snd (analyzer_next ops a))) =
           wire (an_socket a) @
           exchanges rs (fst (renderings ops (renderer a) (step_to_render a) rs)) @
           [Recv (PDict m)]"
proof -
  let ?sv0 = "sv\<lparr>socket := (socket sv)\<lparr>wire := wire (socket sv) @ [Recv (PDict m)],
                                          owes_reply := True, inbox := q\<rparr>\<rparr>"
  have o: "owes_reply (socket ?sv0)" "\<not> closed (socket ?sv0)"
    using assms by simp_all
  have ctl: "control_mode ops sv =
           control_mode ops
             (sv\<lparr>socket := (socket sv)
                   \<lparr>wire := wire (socket sv) @
                      [Recv (PDict m),
                       Send (PStr (''No <ctrl> key received:'' @
                         (''Control mode: received <'' @ str_of ops (PDict m) @ ''>'') @ [CHR 0x0A] @
                         ''Hint: forgot to call reset()?''))],
                    owes_reply := False, inbox := q\<rparr>\<rparr>)"
  proof -
    have cs: "control_step ops ?sv0 m =
           (None,
            sv\<lparr>socket := (socket sv)
                   \<lparr>wire := wire (socket sv) @
                      [Recv (PDict m),
                       Send (PStr (''No <ctrl> key received:'' @
                         (''Control mode: received <'' @ str_of ops (PDict m) @ ''>'') @ [CHR 0x0A] @
                         ''Hint: forgot to call reset()?''))],
                    owes_reply := False, inbox := q\<rparr>\<rparr>)"
      using control_step_no_ctrl[OF o assms(1), of ops] by simp
    show ?thesis
      unfolding control_mode_step[OF assms(3-5)] cs by simp
  qed
  let ?a2 = "a\<lparr>info_list := info_list a @ [get_info ops (strategy a)],
               strategy := (strategy a)\<lparr>action := PStr ''hold''\<rparr>\<rparr>"
  note n = next_communicates[OF assms(6,7)]
  from await_after_renders_turn[of rs ?a2 m rest ops] assms
  obtain \<rho> where
       e: "await_action ops ?a2 =
             (Action_turn m,
              ?a2\<lparr>an_socket := (an_socket ?a2)
                     \<lparr>wire := wire (an_socket ?a2) @
                              exchanges rs (fst (renderings ops (renderer ?a2) (step_to_render ?a2) rs)) @
                              [Recv (PDict m)],
                      owes_reply := True, inbox := rest\<rparr>,
                renderer := \<rho>, message := Some m\<rparr>)"
    by auto
  have "fst (analyzer_next ops a) =
           Raised (AssertionError
                     (''No <action> key recieved:'' @ [CHR 0x0A] @
                      ''COMM recieved: '' @ str_of ops (PDict m))) \<and>
         wire (an_socket (snd (analyzer_next ops a))) =
           wire (an_socket a) @
           exchanges rs (fst (renderings ops (renderer a) (step_to_render a) rs)) @
           [Recv (PDict m)]"
    unfolding n communicate_def e using assms(2) by (simp add: act_and_reply_def Let_def)
  with ctl show ?thesis by blast
qed

theorem malformed_request_witness:
  "map_of [(''foo'', PInt 1)] ''ctrl'' = None \<and>
   map_of [(''foo'', PInt 1)] ''action'' = None \<and>
   \<not> closed (socket (demo_session [[(''foo'', PInt 1)]])) \<and>
   inbox (socket (demo_session [[(''foo'', PInt 1)]])) = [[(''foo'', PInt 1)]] \<and>
   skip_frame (strategy (demo_analyzer 0 1 [[(''foo'', PInt 1)]])) \<noteq> 0 \<and>
   control_mode demo_ops (demo_session [[(''foo'', PInt 1)]]) =
     control_mode demo_ops
       ((demo_session [[(''foo'', PInt 1)]])
          \<lparr>socket := (socket (demo_session [[(''foo'', PInt 1)]]))
             \<lparr>wire := [Recv (PDict [(''foo'', PInt 1)]),
                       Send (PStr (''No <ctrl> key received:'' @
                         (''Control mode: received <'' @ ''<obj>'' @ ''>'') @ [CHR 0x0A] @
                         ''Hint: forgot to call reset()?''))],
              owes_reply := False, inbox := []\<rparr>\<rparr>) \<and>
   fst (analyzer_next demo_ops (demo_analyzer 0 1 [[(''foo'', PInt 1)]])) =
     Raised (AssertionError (''No <action> key recieved:'' @ [CHR 0x0A] @ ''COMM recieved: <obj>'')) \<and>
   wire (an_socket (snd (analyzer_next demo_ops (demo_analyzer 0 1 [[(''foo'', PInt 1)]])))) =
     [Recv (PDict [(''foo'', PInt 1)])]"
  using malformed_request[where m = "[(''foo'', PInt 1)]" and sv = "demo_session [[(''foo'', PInt 1)]]"
          and q = "[]" and a = "demo_analyzer 0 1 [[(''foo'', PInt 1)]]" and ops = demo_ops
          and rs = "[]" and rest = "[]"]
  by (simp add: demo_session_socket demo_defs)

section \<open>Properties of the data acquisition\<close>

lemma round_half_even_err: "\<bar>of_int (round_half_even k) - k\<bar> \<le> 1 / 2"
  unfolding round_half_even_def Let_def by (auto simp: abs_le_iff)

lemma round_double_err:
  assumes "0 \<le> x" "x < 512"
  shows "\<bar>round_double x - x\<bar> \<le> 1 / 2 ^ 45"
proof -
  define s where "s = nat (bitlen \<lfloor>\<bar>x\<bar> * 2 ^ 1074\<rfloor> - 53)"
  define K where "K = x * 2 ^ 1074 / 2 ^ s"
  have "x * 2 ^ 1074 < 2 ^ 9 * 2 ^ 1074"
    using assms(2) by (intro mult_strict_right_mono) simp_all
  then have "x * 2 ^ 1074 < 2 ^ 1083" by (simp only: power_add [symmetric]) simp
  then have "\<lfloor>\<bar>x\<bar> * 2 ^ 1074\<rfloor> < 2 ^ 1083"
    using assms(1) by (simp add: floor_less_iff)
  then have "bitlen \<lfloor>\<bar>x\<bar> * 2 ^ 1074\<rfloor> \<le> 1083"
    using bitlen_le_iff_power [of "\<lfloor>\<bar>x\<bar> * 2 ^ 1074\<rfloor>" 1083] by simp
  then have s: "s \<le> 1030" by (simp add: s_def)
  have rd: "round_double x - x = (of_int (round_half_even K) - K) * (2 ^ s / 2 ^ 1074)"
    unfolding round_double_def Let_def s_def [symmetric] K_def
    by (simp add: field_simps del: power_numeral)
  have "(2::real) ^ s \<le> 2 ^ 1030" using s by (intro power_increasing) simp_all
  then have u: "(2::real) ^ s / 2 ^ 1074 \<le> 2 ^ 1030 / 2 ^ 1074"
    by (intro divide_right_mono) simp_all
  have "(2::real) ^ 1074 = 2 ^ 1030 * 2 ^ 44" by (simp only: power_add [symmetric]) simp
  then have u2: "(2::real) ^ 1030 / 2 ^ 1074 = 1 / 2 ^ 44"
    by (simp only: nonzero_divide_mult_cancel_left power_not_zero zero_neq_numeral
          not_False_eq_True)
  have "\<bar>round_double x - x\<bar> = \<bar>of_int (round_half_even K) - K\<bar> * (2 ^ s / 2 ^ 1074)"
    unfolding rd by (simp add: abs_mult del: power_numeral)
  also have "\<dots> \<le> (1 / 2) * (1 / 2 ^ 44)"
    using round_half_even_err [of K] u u2
    by (intro mult_mono) (simp_all del: power_numeral)
  also have "\<dots> = 1 / 2 ^ 45" by simp
  finally show ?thesis .
qed

lemma float_add_progress:
  assumes "0 \<le> w" "w \<le> 300" "1 / 2 ^ 44 \<le> p" "p < 2"
  shows "w + 1 / 2 ^ 45 \<le> float_add w p"
proof -
  define e :: real where "e = 1 / 2 ^ 45"
  have "0 \<le> w + p" "w + p < 512" using assms by simp_all
  from round_double_err [OF this] have "\<bar>float_add w p - (w + p)\<bar> \<le> e"
    by (simp only: float_add_def e_def)
  then have "w + p - e \<le> float_add w p" by linarith
  moreover have "1 / 2 ^ 44 = 2 * e" by (simp add: e_def)
  ultimately show ?thesis using assms(3) unfolding e_def [symmetric] by linarith
qed

lemma bitlen_eqI: "2 ^ n \<le> m \<Longrightarrow> m < 2 ^ Suc n \<Longrightarrow> bitlen m = int n + 1"
proof -
  assume a: "2 ^ n \<le> m" "m < 2 ^ Suc n"
  have "bitlen m \<le> int (Suc n)"
    unfolding bitlen_le_iff_power nat_int using a(2) by simp
  moreover have "int (Suc n) \<le> bitlen m"
    unfolding bitlen_ge_iff_power nat_int using a(1) by simp
  ultimately show ?thesis by simp
qed

lemma pause_bounds:
  assumes "2 ^ 8 \<le> random_draws sv (draw_pos sv) mod 2 ^ 53"
  shows "1 / 2 ^ 44 \<le> random_random sv * 2" "random_random sv * 2 < 2"
proof -
  let ?k = "random_draws sv (draw_pos sv) mod 2 ^ 53"
  have "real (2 ^ 8) \<le> real ?k" using assms by (simp only: of_nat_le_iff)
  then show "1 / 2 ^ 44 \<le> random_random sv * 2"
    by (simp add: random_random_def field_simps)
  have "?k < 2 ^ 53" by simp
  then have "real ?k < real (2 ^ 53)" by (simp only: of_nat_less_iff)
  then show "random_random sv * 2 < 2"
    by (simp add: random_random_def field_simps)
qed

lemma comm_with_timeout_reply:
  assumes "\<not> closed ds" "\<not> awaiting_reply ds" "script ds (cursor ds) msg = Reply r"
  shows "comm_with_timeout ds msg =
           (Got \<lparr>status = ''ok'', message_of = r\<rparr>,
            ds\<lparr>wire := wire ds @ [Send msg, Recv r], awaiting_reply := False, request := msg,
               cursor := Suc (cursor ds)\<rparr>)"
  using assms by (simp add: comm_with_timeout_def req_send_pyobj_def req_recv_pyobj_def)

lemma says_not_readyD:
  "says_not_ready p \<Longrightarrow> \<exists>r. p = Reply r \<and> not_ready r = Inr True"
  by (cases p) (auto simp: says_not_ready_def)

lemma ok_in_ok [simp]: "str_contains ''ok'' ''ok''"
  by simp

lemma get_data_loop_sleeps:
  assumes "\<not> closed (data_socket sv)" "\<not> awaiting_reply (data_socket sv)"
    and "script (data_socket sv) (cursor (data_socket sv)) (get_data_request kw) = Reply r"
    and "not_ready r = Inr True" "wait \<le> wait_for_data_reset sv"
  shows "get_data_loop (Suc f) sv kw wait =
           get_data_loop f (sleep_once sv kw r) kw (float_add wait (random_random sv * 2))"
  unfolding get_data_loop.simps comm_with_timeout_reply[OF assms(1-3)] sleep_once_def
  using assms(4,5) by (simp add: Let_def)

lemma get_data_loop_stops:
  assumes "\<not> closed (data_socket sv)" "\<not> awaiting_reply (data_socket sv)"
    and "script (data_socket sv) (cursor (data_socket sv)) (get_data_request kw) = Reply r"
    and "not_ready r = Inr True" "\<not> wait \<le> wait_for_data_reset sv"
    and "script (data_socket sv) (Suc (cursor (data_socket sv)))
           (PDict [(''ctrl'', PStr ''_stop'')]) = Reply r2"
  shows "get_data_loop (Suc f) sv kw wait =
           Some (Fail (RuntimeError ''Failed to assert Domain dataset is ready. Exiting.''),
                 sv\<lparr>data_socket := (data_socket sv)
                       \<lparr>wire := wire (data_socket sv) @
                                [Send (get_data_request kw), Recv r,
                                 Send (PDict [(''ctrl'', PStr ''_stop'')]), Recv r2],
                        awaiting_reply := False, request := PDict [(''ctrl'', PStr ''_stop'')],
                        cursor := Suc (Suc (cursor (data_socket sv)))\<rparr>,
                    socket := (socket sv)\<lparr>closed := True\<rparr>, context_alive := False\<rparr>)"
proof -
  let ?ds = "data_socket sv"
  let ?ds1 = "?ds\<lparr>wire := wire ?ds @ [Send (get_data_request kw), Recv r],
                 awaiting_reply := False, request := get_data_request kw,
                 cursor := Suc (cursor ?ds)\<rparr>"
  have c2: "comm_with_timeout ?ds1 (PDict [(''ctrl'', PStr ''_stop'')]) =
           (Got \<lparr>status = ''ok'', message_of = r2\<rparr>,
            ?ds1\<lparr>wire := wire ?ds1 @ [Send (PDict [(''ctrl'', PStr ''_stop'')]), Recv r2],
                 awaiting_reply := False, request := PDict [(''ctrl'', PStr ''_stop'')],
                 cursor := Suc (cursor ?ds1)\<rparr>)"
    by (rule comm_with_timeout_reply) (use assms in simp_all)
  show ?thesis
    unfolding get_data_loop.simps comm_with_timeout_reply[OF assms(1-3)]
    using assms(4,5) c2 by (simp add: Let_def)
qed

lemma sleep_once_simps [simp]:
  "random_draws (sleep_once sv kw r) = random_draws sv"
  "draw_pos (sleep_once sv kw r) = Suc (draw_pos sv)"
  "wait_for_data_reset (sleep_once sv kw r) = wait_for_data_reset sv"
  "script (data_socket (sleep_once sv kw r)) = script (data_socket sv)"
  "closed (data_socket (sleep_once sv kw r)) = closed (data_socket sv)"
  "awaiting_reply (data_socket (sleep_once sv kw r)) = False"
  "cursor (data_socket (sleep_once sv kw r)) = Suc (cursor (data_socket sv))"
  "slept (sleep_once sv kw r) = slept sv @ [random_random sv * 2]"
  by (simp_all add: sleep_once_def)

lemma get_data_loop_times_out:
  fixes sv :: "'r session"
  assumes "\<forall>i. 2 ^ 8 \<le> random_draws sv i mod 2 ^ 53"
    and "\<forall>i v. says_not_ready (script (data_socket sv) i v)"
    and "\<not> closed (data_socket sv)" "\<not> awaiting_reply (data_socket sv)"
    and "wait_for_data_reset sv = 300"
    and "0 \<le> wait"
    and "300 - wait < real k / 2 ^ 45"
  shows "\<exists>n sv' pauses w r.
           (\<forall>fuel\<ge>n. get_data_loop fuel sv kw wait = Some (Fail (RuntimeError ''Failed to assert Domain dataset is ready. Exiting.''), sv')) \<and>
           closed (socket sv') \<and> \<not> context_alive sv' \<and>
           slept sv' = slept sv @ pauses \<and>
           pauses = map (\<lambda>i. real (random_draws sv (draw_pos sv + i) mod 2 ^ 53) / 2 ^ 53 * 2)
                      [0..<length pauses] \<and>
           (\<forall>p\<in>set pauses. 1 / 2 ^ 44 \<le> p \<and> p < 2) \<and>
           300 < foldl float_add wait pauses \<and>
           (pauses \<noteq> [] \<longrightarrow> foldl float_add wait (butlast pauses) \<le> 300) \<and>
           n = length pauses + 1 \<and>
           wire (data_socket sv') = w @ [Send (PDict [(''ctrl'', PStr ''_stop'')]), Recv r]"
  using assms
proof (induction k arbitrary: sv wait)
  case 0
  then have over: "\<not> wait \<le> wait_for_data_reset sv" by simp
  let ?ds = "data_socket sv"
  from "0.prems"(2) obtain r where
    r: "script ?ds (cursor ?ds) (get_data_request kw) = Reply r" "not_ready r = Inr True"
    using says_not_readyD by blast
  from "0.prems"(2) obtain r2 where
    r2: "script ?ds (Suc (cursor ?ds)) (PDict [(''ctrl'', PStr ''_stop'')]) = Reply r2"
    using says_not_readyD by blast
  let ?sv' = "sv\<lparr>data_socket := ?ds
                       \<lparr>wire := wire ?ds @
                                [Send (get_data_request kw), Recv r,
                                 Send (PDict [(''ctrl'', PStr ''_stop'')]), Recv r2],
                        awaiting_reply := False, request := PDict [(''ctrl'', PStr ''_stop'')],
                        cursor := Suc (Suc (cursor ?ds))\<rparr>,
                    socket := (socket sv)\<lparr>closed := True\<rparr>, context_alive := False\<rparr>"
  have "\<forall>fuel\<ge>1. get_data_loop fuel sv kw wait = Some (Fail (RuntimeError ''Failed to assert Domain dataset is ready. Exiting.''), ?sv')"
  proof (intro allI impI)
    fix fuel :: nat assume "1 \<le> fuel"
    then obtain f where f: "fuel = Suc f" by (cases fuel) auto
    show "get_data_loop fuel sv kw wait = Some (Fail (RuntimeError ''Failed to assert Domain dataset is ready. Exiting.''), ?sv')"
      unfolding f by (rule get_data_loop_stops[OF "0.prems"(3,4) r over r2])
  qed
  moreover have "300 < wait" using "0.prems"(7) by simp
  ultimately show ?case
    by (intro exI[of _ 1] exI[of _ ?sv'] exI[of _ "[]"]
          exI[of _ "wire ?ds @ [Send (get_data_request kw), Recv r]"] exI[of _ r2]) simp
next
  case (Suc k)
  show ?case
  proof (cases "wait \<le> wait_for_data_reset sv")
    case False
    then have "300 - wait < 0" using Suc.prems(5) by simp
    moreover have "0 \<le> real k / 2 ^ 45" by simp
    ultimately have "300 - wait < real k / 2 ^ 45" by linarith
    from Suc.IH[OF Suc.prems(1-6) this] show ?thesis .
  next
    case True
    let ?ds = "data_socket sv"
    from Suc.prems(2) obtain r where
      r: "script ?ds (cursor ?ds) (get_data_request kw) = Reply r" "not_ready r = Inr True"
      using says_not_readyD by blast
    let ?pause = "random_random sv * 2"
    let ?sv1 = "sleep_once sv kw r"
    let ?wait1 = "float_add wait ?pause"
    have pv: "?pause = real (random_draws sv (draw_pos sv) mod 2 ^ 53) / 2 ^ 53 * 2"
      by (simp add: random_random_def)
    have "2 ^ 8 \<le> random_draws sv (draw_pos sv) mod 2 ^ 53" using Suc.prems(1) by blast
    note pos = pause_bounds[OF this]
    note step = get_data_loop_sleeps[OF Suc.prems(3,4) r True]
    have w300: "wait \<le> 300" using True Suc.prems(5) by simp
    have prog: "wait + 1 / 2 ^ 45 \<le> ?wait1"
      by (rule float_add_progress[OF Suc.prems(6) w300 pos])
    have "real (Suc k) / 2 ^ 45 = real k / 2 ^ 45 + 1 / 2 ^ 45"
      by (simp add: field_simps)
    with Suc.prems(7) prog have m: "300 - ?wait1 < real k / 2 ^ 45" by linarith
    have nn: "0 \<le> ?wait1" using prog Suc.prems(6) by simp
    have "\<exists>n sv' pauses w r.
           (\<forall>fuel\<ge>n. get_data_loop fuel ?sv1 kw ?wait1 = Some (Fail (RuntimeError ''Failed to assert Domain dataset is ready. Exiting.''), sv')) \<and>
           closed (socket sv') \<and> \<not> context_alive sv' \<and>
           slept sv' = slept ?sv1 @ pauses \<and>
           pauses = map (\<lambda>i. real (random_draws ?sv1 (draw_pos ?sv1 + i) mod 2 ^ 53) / 2 ^ 53 * 2)
                      [0..<length pauses] \<and>
           (\<forall>p\<in>set pauses. 1 / 2 ^ 44 \<le> p \<and> p < 2) \<and>
           300 < foldl float_add ?wait1 pauses \<and>
           (pauses \<noteq> [] \<longrightarrow> foldl float_add ?wait1 (butlast pauses) \<le> 300) \<and>
           n = length pauses + 1 \<and>
           wire (data_socket sv') = w @ [Send (PDict [(''ctrl'', PStr ''_stop'')]), Recv r]"
      by (rule Suc.IH) (use Suc.prems m nn in simp_all)
    then obtain n sv' pauses w r' where IH:
      "\<forall>fuel\<ge>n. get_data_loop fuel ?sv1 kw ?wait1 = Some (Fail (RuntimeError ''Failed to assert Domain dataset is ready. Exiting.''), sv')"
      "closed (socket sv')" "\<not> context_alive sv'"
      "slept sv' = slept ?sv1 @ pauses"
      "pauses = map (\<lambda>i. real (random_draws ?sv1 (draw_pos ?sv1 + i) mod 2 ^ 53) / 2 ^ 53 * 2)
                      [0..<length pauses]"
      "\<forall>p\<in>set pauses. 1 / 2 ^ 44 \<le> p \<and> p < 2"
      "300 < foldl float_add ?wait1 pauses"
      "pauses \<noteq> [] \<longrightarrow> foldl float_add ?wait1 (butlast pauses) \<le> 300"
      "n = length pauses + 1"
      "wire (data_socket sv') = w @ [Send (PDict [(''ctrl'', PStr ''_stop'')]), Recv r']"
      by blast
    have all: "\<forall>fuel\<ge>Suc n. get_data_loop fuel sv kw wait = Some (Fail (RuntimeError ''Failed to assert Domain dataset is ready. Exiting.''), sv')"
    proof (intro allI impI)
      fix fuel :: nat assume "Suc n \<le> fuel"
      then obtain f where f: "fuel = Suc f" "n \<le> f" by (cases fuel) auto
      show "get_data_loop fuel sv kw wait = Some (Fail (RuntimeError ''Failed to assert Domain dataset is ready. Exiting.''), sv')"
        unfolding f(1) step using IH(1) f(2) by simp
    qed
    have ps: "?pause # pauses =
        map (\<lambda>i. real (random_draws sv (draw_pos sv + i) mod 2 ^ 53) / 2 ^ 53 * 2)
          [0..<length (?pause # pauses)]"
      using IH(5) pv by (simp add: map_upt_Suc del: upt_Suc)
    have c_slept: "slept sv' = slept sv @ (?pause # pauses)"
      using IH(4) by simp
    have c_bounds: "\<forall>p\<in>set (?pause # pauses). 1 / 2 ^ 44 \<le> p \<and> p < 2"
      using IH(6) pos by simp
    have c_sum: "300 < foldl float_add wait (?pause # pauses)"
      using IH(7) by simp
    have c_but: "?pause # pauses \<noteq> [] \<longrightarrow>
        foldl float_add wait (butlast (?pause # pauses)) \<le> 300"
      using IH(8) w300 by (cases "pauses = []") simp_all
    have c_n: "Suc n = length (?pause # pauses) + 1"
      using IH(9) by simp
    show ?thesis
      apply (intro exI[of _ "Suc n"] exI[of _ sv'] exI[of _ "?pause # pauses"] exI[of _ w]
                   exI[of _ r'] conjI)
               apply (fact all)
              apply (fact IH(2))
             apply (fact IH(3))
            apply (fact c_slept)
           apply (fact ps)
          apply (fact c_bounds)
         apply (fact c_sum)
        apply (fact c_but)
       apply (fact c_n)
      apply (fact IH(10))
      done
  qed
qed

text \<open>
  C7 (as amended). If every exchange with the data provider succeeds and every reply
  carries the not-ready marker, and every value drawn is at least \<open>2 ^ -45\<close> (each
  sleep is twice the value drawn, so it lies in \<open>[2 ^ -44, 2)\<close>, enough to move a float
  that has not passed 300), then \<^verbatim>\<open>get_data\<close> ends, with any fuel from \<open>n\<close> on: it
  sleeps after each of the first \<open>n - 1\<close> replies, adding the pauses to the wait as
  floats while the wait has not passed 300, and once it has, it sends
  \<^verbatim>\<open>{'ctrl': '_stop'}\<close> to the data provider, closes the controller socket, destroys
  its context and raises \<^verbatim>\<open>RuntimeError\<close>.
\<close>

theorem get_data_gives_up:
  fixes sv :: "'r session"
  assumes "\<forall>i. 2 ^ 8 \<le> random_draws sv i mod 2 ^ 53"
    and "\<forall>i v. says_not_ready (script (data_socket sv) i v)"
    and "\<not> closed (data_socket sv)" "\<not> awaiting_reply (data_socket sv)"
    and "wait_for_data_reset sv = 300"
  shows "\<exists>n sv' pauses w r.
           (\<forall>fuel\<ge>n. get_data fuel ops sv kw =
              Some (Fail (RuntimeError ''Failed to assert Domain dataset is ready. Exiting.''), sv')) \<and>
           closed (socket sv') \<and> \<not> context_alive sv' \<and>
           slept sv' = slept sv @ pauses \<and>
           pauses = map (\<lambda>i. real (random_draws sv (draw_pos sv + i) mod 2 ^ 53) / 2 ^ 53 * 2)
                      [0..<length pauses] \<and>
           (\<forall>p\<in>set pauses. 1 / 2 ^ 44 \<le> p \<and> p < 2) \<and>
           300 < foldl float_add 0 pauses \<and> foldl float_add 0 (butlast pauses) \<le> 300 \<and>
           n = length pauses + 1 \<and>
           wire (data_socket sv') = w @ [Send (PDict [(''ctrl'', PStr ''_stop'')]), Recv r]"
proof -
  have "(300::real) - 0 < real (300 * 2 ^ 45 + 1) / 2 ^ 45"
    by simp
  from get_data_loop_times_out[OF assms(1-5) _ this, of kw]
  obtain n sv' pauses w r where L:
    "\<forall>fuel\<ge>n. get_data_loop fuel sv kw 0 =
        Some (Fail (RuntimeError ''Failed to assert Domain dataset is ready. Exiting.''), sv')"
    "closed (socket sv')" "\<not> context_alive sv'"
    "slept sv' = slept sv @ pauses"
    "pauses = map (\<lambda>i. real (random_draws sv (draw_pos sv + i) mod 2 ^ 53) / 2 ^ 53 * 2)
                      [0..<length pauses]"
    "\<forall>p\<in>set pauses. 1 / 2 ^ 44 \<le> p \<and> p < 2"
    "300 < foldl float_add 0 pauses"
    "pauses \<noteq> [] \<longrightarrow> foldl float_add 0 (butlast pauses) \<le> 300"
    "n = length pauses + 1"
    "wire (data_socket sv') = w @ [Send (PDict [(''ctrl'', PStr ''_stop'')]), Recv r]"
    by auto
  from L(7) have ne: "pauses \<noteq> []" by auto
  have g: "\<forall>fuel\<ge>n. get_data fuel ops sv kw =
              Some (Fail (RuntimeError ''Failed to assert Domain dataset is ready. Exiting.''), sv')"
    using L(1) by (simp add: get_data_def)
  from L(8) ne have b: "foldl float_add 0 (butlast pauses) \<le> 300" by simp
  show ?thesis
    apply (intro exI[of _ n] exI[of _ sv'] exI[of _ pauses] exI[of _ w] exI[of _ r] conjI)
             apply (fact g)
            apply (fact L(2))
           apply (fact L(3))
          apply (fact L(4))
         apply (fact L(5))
        apply (fact L(6))
       apply (fact L(7))
      apply (fact b)
     apply (fact L(9))
    apply (fact L(10))
    done
qed

theorem get_data_gives_up_witness:
  "(\<forall>i. 2 ^ 8 \<le> random_draws waiting_session i mod 2 ^ 53) \<and>
   (\<forall>i v. says_not_ready (script (data_socket waiting_session) i v)) \<and>
   \<not> closed (data_socket waiting_session) \<and> \<not> awaiting_reply (data_socket waiting_session) \<and>
   wait_for_data_reset waiting_session = 300 \<and>
   (\<exists>n sv' pauses w r.
      (\<forall>fuel\<ge>n. get_data fuel demo_ops waiting_session [] =
         Some (Fail (RuntimeError ''Failed to assert Domain dataset is ready. Exiting.''), sv')) \<and>
      closed (socket sv') \<and> \<not> context_alive sv' \<and>
      slept sv' = pauses \<and>
      pauses = replicate (length pauses) 1 \<and>
      300 < foldl float_add 0 pauses \<and> foldl float_add 0 (butlast pauses) \<le> 300 \<and>
      n = length pauses + 1 \<and>
      wire (data_socket sv') = w @ [Send (PDict [(''ctrl'', PStr ''_stop'')]), Recv r])"
proof -
  have h: "\<forall>i. 2 ^ 8 \<le> random_draws waiting_session i mod 2 ^ 53"
    "\<forall>i v. says_not_ready (script (data_socket waiting_session) i v)"
    "\<not> closed (data_socket waiting_session)" "\<not> awaiting_reply (data_socket waiting_session)"
    "wait_for_data_reset waiting_session = 300"
    by (simp_all add: waiting_session_def server_defs says_not_ready_def not_ready_def getitem_def
          str_in_def Let_def)
  have s: "slept waiting_session = []"
    "\<And>i. real (random_draws waiting_session i mod 2 ^ 53) / 2 ^ 53 * 2 = 1"
    by (simp_all add: waiting_session_def server_defs Let_def)
  from get_data_gives_up[OF h, of demo_ops "[]"] h show ?thesis
    unfolding s by (simp only: append_Nil map_replicate_const length_upt minus_nat.diff_0) blast
qed


lemma float_add_0: "float_add 0 (3 / 2) = 3 / 2"
proof -
  have x: "\<lfloor>\<bar>0 + 3 / 2 :: real\<bar> * 2 ^ 1074\<rfloor> = 3 * 2 ^ 1073"
    by simp
  have b: "bitlen (3 * 2 ^ 1073) = 1075"
    using bitlen_eqI [of 1074 "3 * 2 ^ 1073"] by simp
  show ?thesis
    unfolding float_add_def round_double_def x b by (simp add: round_half_even_def)
qed

lemma float_add_1: "float_add (3 / 2) (3 / 2) = 3"
proof -
  have x: "\<lfloor>\<bar>3 / 2 + 3 / 2 :: real\<bar> * 2 ^ 1074\<rfloor> = 3 * 2 ^ 1074"
    by simp
  have b: "bitlen (3 * 2 ^ 1074) = 1076"
    using bitlen_eqI [of 1075 "3 * 2 ^ 1074"] by simp
  show ?thesis
    unfolding float_add_def round_double_def x b by (simp add: round_half_even_def)
qed

lemma float_add_2: "float_add 3 (3 / 2) = 9 / 2"
proof -
  have x: "\<lfloor>\<bar>3 + 3 / 2 :: real\<bar> * 2 ^ 1074\<rfloor> = 9 * 2 ^ 1073"
    by simp
  have b: "bitlen (9 * 2 ^ 1073) = 1077"
    using bitlen_eqI [of 1076 "9 * 2 ^ 1073"] by simp
  show ?thesis
    unfolding float_add_def round_double_def x b by (simp add: round_half_even_def)
qed

lemma float_add_stalls: "float_add (9 / 2) (1 / 2 ^ 52) = 9 / 2"
proof -
  have x: "\<lfloor>\<bar>9 / 2 + 1 / 2 ^ 52 :: real\<bar> * 2 ^ 1074\<rfloor> = 9 * 2 ^ 1073 + 2 ^ 1022"
    by simp
  have b: "bitlen (9 * 2 ^ 1073 + 2 ^ 1022) = 1077"
    using bitlen_eqI [of 1076 "9 * 2 ^ 1073 + 2 ^ 1022"] by simp
  show ?thesis
    unfolding float_add_def round_double_def x b by (simp add: round_half_even_def)
qed

lemma stalled_loop:
  fixes sv :: "'r session"
  assumes "\<forall>i v. says_not_ready (script (data_socket sv) i v)"
    and "\<not> closed (data_socket sv)" "\<not> awaiting_reply (data_socket sv)"
    and "wait_for_data_reset sv = 300"
    and "\<forall>i\<ge>draw_pos sv. random_draws sv i = 1"
  shows "get_data_loop fuel sv kw (9 / 2) = None"
  using assms
proof (induction fuel arbitrary: sv)
  case 0
  show ?case by simp
next
  case (Suc f)
  let ?ds = "data_socket sv"
  from Suc.prems(1) obtain r where
    r: "script ?ds (cursor ?ds) (get_data_request kw) = Reply r" "not_ready r = Inr True"
    using says_not_readyD by blast
  have w: "9 / 2 \<le> wait_for_data_reset sv" using Suc.prems(4) by simp
  have "random_draws sv (draw_pos sv) = 1" using Suc.prems(5) by simp
  then have p: "random_random sv * 2 = 1 / 2 ^ 52"
    by (simp add: random_random_def)
  have "get_data_loop f (sleep_once sv kw r) kw (9 / 2) = None"
    by (rule Suc.IH) (use Suc.prems in simp_all)
  then show ?case
    unfolding get_data_loop_sleeps[OF Suc.prems(2,3) r w] p float_add_stalls .
qed

text \<open>
  C7 as the specification words it does not hold: positive sleeps do not make the loop
  end. When the random generator gives three quarters thrice and then \<open>2 ^ -53\<close> for
  ever, every sleep is positive, but the wait comes to 4.5 and stays there, since
  \<open>4.5 + 2 ^ -52\<close> is 4.5 again in doubles: the loop has not ended with whatever fuel.
\<close>

theorem positive_sleeps_can_stall:
  "(\<forall>i. 0 < real (random_draws stalled_session i mod 2 ^ 53) / 2 ^ 53 * 2) \<and>
   (\<forall>i v. says_not_ready (script (data_socket stalled_session) i v)) \<and>
   \<not> closed (data_socket stalled_session) \<and> \<not> awaiting_reply (data_socket stalled_session) \<and>
   wait_for_data_reset stalled_session = 300 \<and>
   (\<forall>fuel. get_data fuel demo_ops stalled_session [] = None)"
proof -
  let ?S = "stalled_session"
  let ?r = "PDict [(''ctrl'', PStr ''Dataset not ready, wait'')]"
  have h: "\<forall>i v. says_not_ready (script (data_socket ?S) i v)"
    "\<not> closed (data_socket ?S)" "\<not> awaiting_reply (data_socket ?S)"
    "wait_for_data_reset ?S = 300"
    by (simp_all add: stalled_session_def server_defs says_not_ready_def not_ready_def getitem_def
          str_in_def Let_def)
  have d: "random_draws ?S = (\<lambda>i. if i < 3 then 3 * 2 ^ 51 else 1)" "draw_pos ?S = 0"
    by (simp_all add: stalled_session_def server_defs Let_def)
  have sc: "\<And>i v. script (data_socket ?S) i v = Reply ?r"
    by (simp add: stalled_session_def server_defs Let_def)
  have nr: "not_ready ?r = Inr True"
    by (simp add: not_ready_def getitem_def str_in_def)
  have pos: "\<forall>i. 0 < real (random_draws ?S i mod 2 ^ 53) / 2 ^ 53 * 2"
    unfolding d by simp
  let ?S1 = "sleep_once ?S [] ?r"
  let ?S2 = "sleep_once ?S1 [] ?r"
  let ?S3 = "sleep_once ?S2 [] ?r"
  have p0: "random_random ?S * 2 = 3 / 2" "random_random ?S1 * 2 = 3 / 2"
    "random_random ?S2 * 2 = 3 / 2"
    by (simp_all add: random_random_def d)
  have s1: "\<And>f. get_data_loop (Suc f) ?S [] 0 = get_data_loop f ?S1 [] (3 / 2)"
    by (subst get_data_loop_sleeps[where r = ?r]) (simp_all add: h sc nr p0 float_add_0)
  have s2: "\<And>f. get_data_loop (Suc f) ?S1 [] (3 / 2) = get_data_loop f ?S2 [] 3"
    by (subst get_data_loop_sleeps[where r = ?r]) (simp_all add: h sc nr p0 float_add_1)
  have s3: "\<And>f. get_data_loop (Suc f) ?S2 [] 3 = get_data_loop f ?S3 [] (9 / 2)"
    by (subst get_data_loop_sleeps[where r = ?r]) (simp_all add: h sc nr p0 float_add_2)
  have s4: "\<And>f. get_data_loop f ?S3 [] (9 / 2) = None"
    by (rule stalled_loop) (simp_all add: h d)
  have "get_data_loop fuel ?S [] 0 = None" for fuel
  proof (cases fuel)
    case 0
    then show ?thesis by simp
  next
    case (Suc f1)
    show ?thesis
    proof (cases f1)
      case 0
      with Suc show ?thesis by (simp only: s1 get_data_loop.simps(1))
    next
      case (Suc f2)
      note f1 = this
      show ?thesis
      proof (cases f2)
        case 0
        with \<open>fuel = Suc f1\<close> f1 show ?thesis by (simp only: s1 s2 get_data_loop.simps(1))
      next
        case (Suc f3)
        with \<open>fuel = Suc f1\<close> f1 show ?thesis by (simp only: s1 s2 s3 s4)
      qed
    qed
  qed
  then have "\<forall>fuel. get_data fuel demo_ops ?S [] = None"
    by (simp add: get_data_def)
  with pos h show ?thesis by blast
qed

section \<open>Properties of the trial's resolution\<close>

lemma get_data_loop_ready:
  assumes "\<not> closed (data_socket sv)" "\<not> awaiting_reply (data_socket sv)"
    and "script (data_socket sv) (cursor (data_socket sv)) (get_data_request kw) = Reply (PDict d)"
    and "map_of d ''ctrl'' = None"
  shows "get_data_loop (Suc n) sv kw wait =
           Some (Got \<lparr>status = ''ok'', message_of = PDict d\<rparr>,
                 sv\<lparr>data_socket := (data_socket sv)
                       \<lparr>wire := wire (data_socket sv) @ [Send (get_data_request kw), Recv (PDict d)],
                        awaiting_reply := False, request := get_data_request kw,
                        cursor := Suc (cursor (data_socket sv))\<rparr>\<rparr>)"
  unfolding get_data_loop.simps comm_with_timeout_reply[OF assms(1-3)]
  using assms(4) by (simp add: not_ready_def getitem_def)

lemma get_trial_fetches:
  assumes "map_of tc ''get_new'' = Some g" "truthy g \<or> trial_sample sv = PNone"
    and "\<not> closed (data_socket sv)" "\<not> awaiting_reply (data_socket sv)"
    and "script (data_socket sv) (cursor (data_socket sv)) (get_data_request tc) = Reply (PDict d)"
    and "map_of d ''ctrl'' = None" "map_of d ''sample'' = Some smp" "map_of d ''stat'' = Some st"
  shows "get_trial (Suc n) ops sv tc =
           Some (Returned,
                 sv\<lparr>data_socket := (data_socket sv)
                       \<lparr>wire := wire (data_socket sv) @ [Send (get_data_request tc), Recv (PDict d)],
                        awaiting_reply := False, request := get_data_request tc,
                        cursor := Suc (cursor (data_socket sv))\<rparr>,
                    trial_sample := sample_reset ops smp, trial_stat := describe ops smp,
                    dataset_stat := st\<rparr>)"
  unfolding get_trial_def get_data_def get_data_loop_ready[OF assms(3-6)]
  using assms(1,2,7,8) by (auto simp: getitem_def Let_def)

lemma strip_request [simp]:
  "strip_kwargs (Send (get_data_request kw)) = Send (PDict [(''ctrl'', PStr ''_get_data'')])"
  by (simp add: strip_kwargs_def get_data_request_def)

lemma comm_with_timeout_script [simp]:
  "script (snd (comm_with_timeout ds msg)) = script ds"
  by (cases "script ds (cursor ds) msg")
     (simp_all add: comm_with_timeout_def req_send_pyobj_def req_recv_pyobj_def)

lemma comm_with_timeout_erase:
  assumes "map strip_kwargs (wire ds) = map strip_kwargs w'"
    and "strip_kwargs (Send msg) = strip_kwargs (Send msg')"
    and "script ds (cursor ds) msg = script ds (cursor ds) msg'"
  shows "\<exists>w'' q''. comm_with_timeout (ds\<lparr>wire := w', request := q'\<rparr>) msg' =
           (fst (comm_with_timeout ds msg),
            (snd (comm_with_timeout ds msg))\<lparr>wire := w'', request := q''\<rparr>) \<and>
         map strip_kwargs (wire (snd (comm_with_timeout ds msg))) = map strip_kwargs w''"
proof (cases "closed ds \<or> awaiting_reply ds")
  case True
  with assms show ?thesis
    by (intro exI[of _ w'] exI[of _ q']) (auto simp: comm_with_timeout_def req_send_pyobj_def)
next
  case False
  show ?thesis
  proof (cases "script ds (cursor ds) msg")
    case (Reply r)
    then have m': "script ds (cursor ds) msg' = Reply r" using assms(3) by simp
    with Reply False assms(1,2) show ?thesis
      by (intro exI[of _ "w' @ [Send msg', Recv r]"] exI[of _ msg'])
         (simp add: comm_with_timeout_def req_send_pyobj_def req_recv_pyobj_def)
  next
    case Send_timeout
    then have m': "script ds (cursor ds) msg' = Send_timeout" using assms(3) by simp
    with Send_timeout False assms(1,2) show ?thesis
      by (intro exI[of _ w'] exI[of _ q']) (simp add: comm_with_timeout_def req_send_pyobj_def)
  next
    case Send_fault
    then have m': "script ds (cursor ds) msg' = Send_fault" using assms(3) by simp
    with Send_fault False assms(1,2) show ?thesis
      by (intro exI[of _ w'] exI[of _ q']) (simp add: comm_with_timeout_def req_send_pyobj_def)
  next
    case Recv_timeout
    then have m': "script ds (cursor ds) msg' = Recv_timeout" using assms(3) by simp
    with Recv_timeout False assms(1,2) show ?thesis
      by (intro exI[of _ "w' @ [Send msg']"] exI[of _ msg'])
         (simp add: comm_with_timeout_def req_send_pyobj_def req_recv_pyobj_def)
  next
    case Recv_fault
    then have m': "script ds (cursor ds) msg' = Recv_fault" using assms(3) by simp
    with Recv_fault False assms(1,2) show ?thesis
      by (intro exI[of _ "w' @ [Send msg']"] exI[of _ msg'])
         (simp add: comm_with_timeout_def req_send_pyobj_def req_recv_pyobj_def)
  qed
qed

lemma get_data_loop_erase:
  fixes sv :: "'r session"
  assumes "map strip_kwargs (wire (data_socket sv)) = map strip_kwargs w'"
    and "\<forall>i. script (data_socket sv) i (get_data_request kw) =
             script (data_socket sv) i (get_data_request kw')"
  shows "case get_data_loop n sv kw wait of
           None \<Rightarrow>
             get_data_loop n (sv\<lparr>data_socket := (data_socket sv)\<lparr>wire := w', request := q'\<rparr>\<rparr>)
               kw' wait = None
         | Some (r, s) \<Rightarrow>
             (\<exists>w'' q''. get_data_loop n
                          (sv\<lparr>data_socket := (data_socket sv)\<lparr>wire := w', request := q'\<rparr>\<rparr>)
                          kw' wait =
                      Some (r, s\<lparr>data_socket := (data_socket s)\<lparr>wire := w'', request := q''\<rparr>\<rparr>) \<and>
                    map strip_kwargs (wire (data_socket s)) = map strip_kwargs w'')"
  using assms
proof (induction n arbitrary: sv w' q' wait)
  case 0
  show ?case by simp
next
  case (Suc n)
  let ?ds = "data_socket sv"
  obtain x ds1 where c: "comm_with_timeout ?ds (get_data_request kw) = (x, ds1)"
    by (cases "comm_with_timeout ?ds (get_data_request kw)") auto
  have sc: "script ds1 = script ?ds"
    using comm_with_timeout_script[of ?ds "get_data_request kw"] c by simp
  have same: "script ?ds (cursor ?ds) (get_data_request kw) =
              script ?ds (cursor ?ds) (get_data_request kw')"
    using Suc.prems(2) by blast
  from comm_with_timeout_erase[where msg = "get_data_request kw"
         and msg' = "get_data_request kw'" and q' = q', OF Suc.prems(1) _ same] c
  obtain w1 q1 where
    c': "comm_with_timeout (?ds\<lparr>wire := w', request := q'\<rparr>) (get_data_request kw') =
           (x, ds1\<lparr>wire := w1, request := q1\<rparr>)"
    and e1: "map strip_kwargs (wire ds1) = map strip_kwargs w1"
    by auto
  show ?case
  proof (cases x)
    case (Fail e)
    with c c' e1 show ?thesis by (auto intro!: exI[of _ w1] exI[of _ q1])
  next
    case Wait
    with c c' e1 show ?thesis by (auto intro!: exI[of _ w1] exI[of _ q1])
  next
    case (Got resp)
    show ?thesis
    proof (cases "str_contains (status resp) ''ok''")
      case False
      with Got c c' e1 show ?thesis by (auto intro!: exI[of _ w1] exI[of _ q1])
    next
      case True
      show ?thesis
      proof (cases "not_ready (message_of resp) = Inr True")
        case False
        with True Got c c' e1 show ?thesis
          by (auto intro!: exI[of _ w1] exI[of _ q1] split: sum.splits error.splits bool.splits)
      next
        case nr: True
        show ?thesis
        proof (cases "wait \<le> wait_for_data_reset sv")
          case w: True
          let ?sv1 = "sv\<lparr>data_socket := ds1, draw_pos := Suc (draw_pos sv),
                         slept := slept sv @ [random_random sv * 2]\<rparr>"
          have l: "get_data_loop (Suc n) sv kw wait =
                     get_data_loop n ?sv1 kw (float_add wait (random_random sv * 2))"
            using c Got True nr w by (simp add: Let_def)
          have rr: "random_random (sv\<lparr>data_socket := ?ds\<lparr>wire := w', request := q'\<rparr>\<rparr>) =
                      random_random sv"
            by (simp add: random_random_def)
          have eq: "?sv1\<lparr>data_socket := (data_socket ?sv1)\<lparr>wire := w1, request := q1\<rparr>\<rparr> =
                      sv\<lparr>data_socket := ds1\<lparr>wire := w1, request := q1\<rparr>,
                         draw_pos := Suc (draw_pos sv),
                         slept := slept sv @ [random_random sv * 2]\<rparr>"
            by simp
          have r: "get_data_loop (Suc n) (sv\<lparr>data_socket := ?ds\<lparr>wire := w', request := q'\<rparr>\<rparr>) kw' wait =
                     get_data_loop n
                       (?sv1\<lparr>data_socket := (data_socket ?sv1)\<lparr>wire := w1, request := q1\<rparr>\<rparr>) kw'
                       (float_add wait (random_random sv * 2))"
            unfolding eq using c' Got True nr w by (simp add: Let_def rr)
          have 1: "map strip_kwargs (wire (data_socket ?sv1)) = map strip_kwargs w1"
            using e1 by simp
          have 2: "\<forall>i. script (data_socket ?sv1) i (get_data_request kw) =
                       script (data_socket ?sv1) i (get_data_request kw')"
            using Suc.prems(2) sc by simp
          from Suc.IH[where q' = q1 and wait = "float_add wait (random_random sv * 2)", OF 1 2]
          show ?thesis unfolding l r .
        next
          case w: False
          obtain y ds2 where s: "comm_with_timeout ds1 (PDict [(''ctrl'', PStr ''_stop'')]) = (y, ds2)"
            by (cases "comm_with_timeout ds1 (PDict [(''ctrl'', PStr ''_stop'')])") auto
          from comm_with_timeout_erase[where msg = "PDict [(''ctrl'', PStr ''_stop'')]"
                 and msg' = "PDict [(''ctrl'', PStr ''_stop'')]" and q' = q1, OF e1 refl refl] s
          obtain w2 q2 where
            s': "comm_with_timeout (ds1\<lparr>wire := w1, request := q1\<rparr>)
                   (PDict [(''ctrl'', PStr ''_stop'')]) = (y, ds2\<lparr>wire := w2, request := q2\<rparr>)"
            and e2: "map strip_kwargs (wire ds2) = map strip_kwargs w2"
            by auto
          show ?thesis
            using c c' s s' e2 Got True nr w
            by (cases y) (auto intro!: exI[of _ w2] exI[of _ q2])
        qed
      qed
    qed
  qed
qed

lemma erase_kwargs_rewire:
  "map strip_kwargs (wire (data_socket s)) = map strip_kwargs w \<Longrightarrow>
     erase_kwargs (s\<lparr>data_socket := (data_socket s)\<lparr>wire := w, request := q\<rparr>\<rparr>) = erase_kwargs s"
  by (simp add: erase_kwargs_def)

lemma get_data_loop_kwargs:
  fixes sv :: "'r session"
  assumes "\<forall>i. script (data_socket sv) i (get_data_request kw) =
             script (data_socket sv) i (get_data_request kw')"
  shows "case get_data_loop n sv kw wait of
           None \<Rightarrow> get_data_loop n sv kw' wait = None
         | Some (r, s) \<Rightarrow>
             (\<exists>s'. get_data_loop n sv kw' wait = Some (r, s') \<and>
                   erase_kwargs s' = erase_kwargs s)"
proof -
  have same: "sv\<lparr>data_socket := (data_socket sv)\<lparr>wire := wire (data_socket sv),
                  request := request (data_socket sv)\<rparr>\<rparr> = sv"
    by simp
  note L = get_data_loop_erase[where sv = sv and w' = "wire (data_socket sv)" and n = n
             and kw = kw and wait = wait and kw' = kw' and q' = "request (data_socket sv)",
             OF refl assms, unfolded same]
  show ?thesis
  proof (cases "get_data_loop n sv kw wait")
    case None
    with L show ?thesis by simp
  next
    case (Some p)
    obtain r s where p: "p = (r, s)" by (cases p) auto
    from L Some p obtain w'' q'' where
      1: "get_data_loop n sv kw' wait =
            Some (r, s\<lparr>data_socket := (data_socket s)\<lparr>wire := w'', request := q''\<rparr>\<rparr>)"
      and 2: "map strip_kwargs (wire (data_socket s)) = map strip_kwargs w''"
      by auto
    from erase_kwargs_rewire[OF 2] 1 Some p show ?thesis
      by simp
  qed
qed

lemma get_data_kwargs:
  fixes sv :: "'r session"
  assumes "\<forall>i. script (data_socket sv) i (get_data_request kw) =
             script (data_socket sv) i (get_data_request kw')"
  shows "map_option (apsnd erase_kwargs) (get_data fuel ops sv kw) =
         map_option (apsnd erase_kwargs) (get_data fuel ops sv kw')"
proof (cases "get_data_loop fuel sv kw 0")
  case None
  with get_data_loop_kwargs[OF assms, where n = fuel and wait = 0] show ?thesis
    by (simp add: get_data_def)
next
  case (Some p)
  obtain r s where p: "p = (r, s)" by (cases p) auto
  from get_data_loop_kwargs[OF assms, where n = fuel and wait = 0] Some p
  obtain s' where l: "get_data_loop fuel sv kw' 0 = Some (r, s')"
    and e: "erase_kwargs s' = erase_kwargs s"
    by auto
  show ?thesis
    using Some p l e
    by (cases r) (auto simp: get_data_def Let_def split: sum.splits)
qed

lemma erase_kwargs_trial [simp]:
  "erase_kwargs (s\<lparr>trial_sample := a, trial_stat := b, dataset_stat := c\<rparr>) =
     (erase_kwargs s)\<lparr>trial_sample := a, trial_stat := b, dataset_stat := c\<rparr>"
  by (simp add: erase_kwargs_def)

lemma resolve_erase:
  fixes x y :: "((pyval \<times> pyval \<times> pyval) io \<times> 'r session) option"
  assumes "map_option (apsnd erase_kwargs) x = map_option (apsnd erase_kwargs) y"
  shows "map_option (apsnd erase_kwargs)
       (case x of None \<Rightarrow> None
        | Some (Fail e, sv1) \<Rightarrow> Some (Raised e, sv1)
        | Some (Wait, sv1) \<Rightarrow> Some (Blocked, sv1)
        | Some (Got (smp, stat, ds_stat), sv1) \<Rightarrow>
            Some (Returned, sv1\<lparr>trial_sample := smp, trial_stat := stat, dataset_stat := ds_stat\<rparr>)) =
     map_option (apsnd erase_kwargs)
       (case y of None \<Rightarrow> None
        | Some (Fail e, sv1) \<Rightarrow> Some (Raised e, sv1)
        | Some (Wait, sv1) \<Rightarrow> Some (Blocked, sv1)
        | Some (Got (smp, stat, ds_stat), sv1) \<Rightarrow>
            Some (Returned, sv1\<lparr>trial_sample := smp, trial_stat := stat, dataset_stat := ds_stat\<rparr>))"
proof (cases x)
  case None
  with assms show ?thesis by (cases y) simp_all
next
  case (Some p)
  obtain r s where p: "p = (r, s)" by (cases p) auto
  from assms Some p obtain s' where y: "y = Some (r, s')" and e: "erase_kwargs s' = erase_kwargs s"
    by (cases y) auto
  show ?thesis
    using Some p y e by (cases r) (auto split: prod.splits)
qed

lemma get_trial_kwargs:
  fixes sv :: "'r session"
  assumes "map_of tc ''get_new'' = Some g" "map_of tc' ''get_new'' = Some g'"
    and "trial_sample sv = PNone"
    and "\<forall>i. script (data_socket sv) i (get_data_request tc) =
             script (data_socket sv) i (get_data_request tc')"
  shows "map_option (apsnd erase_kwargs) (get_trial fuel ops sv tc) =
         map_option (apsnd erase_kwargs) (get_trial fuel ops sv tc')"
  using resolve_erase[OF get_data_kwargs[OF assms(4), where fuel = fuel and ops = ops]] assms(1-3)
  by (simp add: get_trial_def)

lemmas acquire_defs = get_trial_def get_data_def comm_with_timeout_def req_send_pyobj_def
  req_recv_pyobj_def not_ready_def getitem_def str_in_def get_data_request_def Let_def

lemmas ready_defs = ready_session_def run_start_def init_def demo_ops_def

text \<open>
  C8 (as amended). With the merged trial configuration \<open>tc\<close>: when it does not ask for
  a new trial and one is cached, the reset returns with the session untouched (no
  message on the data channel); when it asks for one or none is cached, and the data
  provider answers the request with a sample at once, the reset returns after exactly
  one exchange, the request \<^verbatim>\<open>{'ctrl': '_get_data', 'kwargs': tc}\<close> and its answer,
  with the sample, its statistics and those of the data set stored. On a session with
  no cached trial, two configurations (as \<^verbatim>\<open>get_new\<close> false and true) that the
  provider answers with the same sample give the same outcome and the same session
  but for the request sent, which carries the configuration and so its \<^verbatim>\<open>get_new\<close>.
  More generally, when the provider answers the two requests alike at every exchange,
  the two resets have, with any fuel, both ended or both not ended, and when ended they
  have the same outcome and the same session once the \<open>kwargs\<close> of the requests are
  left out.
\<close>

theorem trial_fetch:
  fixes sv :: "'r session"
  assumes "map_of tc ''get_new'' = Some g" "map_of tc' ''get_new'' = Some g'"
  shows "(\<not> (truthy g \<or> trial_sample sv = PNone) \<longrightarrow>
            get_trial fuel ops sv tc = Some (Returned, sv)) \<and>
         ((truthy g \<or> trial_sample sv = PNone) \<and>
          \<not> closed (data_socket sv) \<and> \<not> awaiting_reply (data_socket sv) \<and>
          script (data_socket sv) (cursor (data_socket sv)) (get_data_request tc) = Reply (PDict d) \<and>
          map_of d ''ctrl'' = None \<and> map_of d ''sample'' = Some smp \<and> map_of d ''stat'' = Some st
          \<longrightarrow>
            get_trial (Suc n) ops sv tc =
              Some (Returned,
                    sv\<lparr>data_socket := (data_socket sv)
                          \<lparr>wire := wire (data_socket sv) @
                                   [Send (get_data_request tc), Recv (PDict d)],
                           awaiting_reply := False, request := get_data_request tc,
                           cursor := Suc (cursor (data_socket sv))\<rparr>,
                       trial_sample := sample_reset ops smp, trial_stat := describe ops smp,
                       dataset_stat := st\<rparr>)) \<and>
         (trial_sample sv = PNone \<and>
          \<not> closed (data_socket sv) \<and> \<not> awaiting_reply (data_socket sv) \<and>
          script (data_socket sv) (cursor (data_socket sv)) (get_data_request tc) = Reply (PDict d) \<and>
          script (data_socket sv) (cursor (data_socket sv)) (get_data_request tc') = Reply (PDict d) \<and>
          map_of d ''ctrl'' = None \<and> map_of d ''sample'' = Some smp \<and> map_of d ''stat'' = Some st
          \<longrightarrow>
            (\<exists>s. get_trial (Suc n) ops sv tc = Some (Returned, s) \<and>
                 wire (data_socket s) =
                   wire (data_socket sv) @ [Send (get_data_request tc), Recv (PDict d)] \<and>
                 get_trial (Suc n) ops sv tc' =
                   Some (Returned,
                         s\<lparr>data_socket := (data_socket s)
                              \<lparr>wire := wire (data_socket sv) @
                                       [Send (get_data_request tc'), Recv (PDict d)],
                               request := get_data_request tc'\<rparr>\<rparr>))) \<and>
         (trial_sample sv = PNone \<and>
          (\<forall>i. script (data_socket sv) i (get_data_request tc) =
               script (data_socket sv) i (get_data_request tc')) \<longrightarrow>
            map_option (apsnd erase_kwargs) (get_trial fuel ops sv tc) =
            map_option (apsnd erase_kwargs) (get_trial fuel ops sv tc'))"
proof (intro conjI impI)
  assume a: "trial_sample sv = PNone \<and>
          (\<forall>i. script (data_socket sv) i (get_data_request tc) =
               script (data_socket sv) i (get_data_request tc'))"
  show "map_option (apsnd erase_kwargs) (get_trial fuel ops sv tc) =
            map_option (apsnd erase_kwargs) (get_trial fuel ops sv tc')"
    by (rule get_trial_kwargs[OF assms]) (use a in simp_all)
next
  assume "\<not> (truthy g \<or> trial_sample sv = PNone)"
  with assms(1) show "get_trial fuel ops sv tc = Some (Returned, sv)"
    by (simp add: get_trial_def)
next
  assume a: "(truthy g \<or> trial_sample sv = PNone) \<and>
          \<not> closed (data_socket sv) \<and> \<not> awaiting_reply (data_socket sv) \<and>
          script (data_socket sv) (cursor (data_socket sv)) (get_data_request tc) = Reply (PDict d) \<and>
          map_of d ''ctrl'' = None \<and> map_of d ''sample'' = Some smp \<and> map_of d ''stat'' = Some st"
  show "get_trial (Suc n) ops sv tc =
              Some (Returned,
                    sv\<lparr>data_socket := (data_socket sv)
                          \<lparr>wire := wire (data_socket sv) @
                                   [Send (get_data_request tc), Recv (PDict d)],
                           awaiting_reply := False, request := get_data_request tc,
                           cursor := Suc (cursor (data_socket sv))\<rparr>,
                       trial_sample := sample_reset ops smp, trial_stat := describe ops smp,
                       dataset_stat := st\<rparr>)"
    by (rule get_trial_fetches[OF assms(1)]) (use a in simp_all)
next
  assume a: "trial_sample sv = PNone \<and>
          \<not> closed (data_socket sv) \<and> \<not> awaiting_reply (data_socket sv) \<and>
          script (data_socket sv) (cursor (data_socket sv)) (get_data_request tc) = Reply (PDict d) \<and>
          script (data_socket sv) (cursor (data_socket sv)) (get_data_request tc') = Reply (PDict d) \<and>
          map_of d ''ctrl'' = None \<and> map_of d ''sample'' = Some smp \<and> map_of d ''stat'' = Some st"
  have 1: "get_trial (Suc n) ops sv tc =
              Some (Returned,
                    sv\<lparr>data_socket := (data_socket sv)
                          \<lparr>wire := wire (data_socket sv) @
                                   [Send (get_data_request tc), Recv (PDict d)],
                           awaiting_reply := False, request := get_data_request tc,
                           cursor := Suc (cursor (data_socket sv))\<rparr>,
                       trial_sample := sample_reset ops smp, trial_stat := describe ops smp,
                       dataset_stat := st\<rparr>)" (is "_ = Some (Returned, ?s)")
    by (rule get_trial_fetches[OF assms(1)]) (use a in simp_all)
  have 2: "get_trial (Suc n) ops sv tc' =
              Some (Returned,
                    sv\<lparr>data_socket := (data_socket sv)
                          \<lparr>wire := wire (data_socket sv) @
                                   [Send (get_data_request tc'), Recv (PDict d)],
                           awaiting_reply := False, request := get_data_request tc',
                           cursor := Suc (cursor (data_socket sv))\<rparr>,
                       trial_sample := sample_reset ops smp, trial_stat := describe ops smp,
                       dataset_stat := st\<rparr>)"
    by (rule get_trial_fetches[OF assms(2)]) (use a in simp_all)
  show "\<exists>s. get_trial (Suc n) ops sv tc = Some (Returned, s) \<and>
                 wire (data_socket s) =
                   wire (data_socket sv) @ [Send (get_data_request tc), Recv (PDict d)] \<and>
                 get_trial (Suc n) ops sv tc' =
                   Some (Returned,
                         s\<lparr>data_socket := (data_socket s)
                              \<lparr>wire := wire (data_socket sv) @
                                       [Send (get_data_request tc'), Recv (PDict d)],
                               request := get_data_request tc'\<rparr>\<rparr>)"
    unfolding 1 2 by (intro exI[of _ ?s]) simp
qed

theorem trial_fetch_witness:
  "map_of [(''get_new'', PBool False)] ''get_new'' = Some (PBool False) \<and>
   map_of [(''get_new'', PBool True)] ''get_new'' = Some (PBool True) \<and>
   trial_sample (ready_session\<lparr>trial_sample := PStr ''old''\<rparr>) \<noteq> PNone \<and>
   get_trial 1 demo_ops (ready_session\<lparr>trial_sample := PStr ''old''\<rparr>) [(''get_new'', PBool False)] =
     Some (Returned, ready_session\<lparr>trial_sample := PStr ''old''\<rparr>) \<and>
   trial_sample ready_session = PNone \<and>
   \<not> closed (data_socket ready_session) \<and> \<not> awaiting_reply (data_socket ready_session) \<and>
   script (data_socket ready_session) (cursor (data_socket ready_session))
     (get_data_request [(''get_new'', PBool False)]) =
     Reply (PDict [(''sample'', PStr ''trial''), (''stat'', PStr ''all'')]) \<and>
   script (data_socket ready_session) (cursor (data_socket ready_session))
     (get_data_request [(''get_new'', PBool True)]) =
     Reply (PDict [(''sample'', PStr ''trial''), (''stat'', PStr ''all'')]) \<and>
   get_trial 1 demo_ops ready_session [(''get_new'', PBool False)] =
     Some (Returned,
       ready_session
         \<lparr>data_socket := (data_socket ready_session)
            \<lparr>wire := wire (data_socket ready_session) @
                     [Send (get_data_request [(''get_new'', PBool False)]),
                      Recv (PDict [(''sample'', PStr ''trial''), (''stat'', PStr ''all'')])],
             awaiting_reply := False, request := get_data_request [(''get_new'', PBool False)],
             cursor := Suc (cursor (data_socket ready_session))\<rparr>,
          trial_sample := sample_reset demo_ops (PStr ''trial''),
          trial_stat := describe demo_ops (PStr ''trial''),
          dataset_stat := PStr ''all''\<rparr>) \<and>
   (\<exists>s. get_trial 1 demo_ops ready_session [(''get_new'', PBool False)] = Some (Returned, s) \<and>
        wire (data_socket s) =
          wire (data_socket ready_session) @
          [Send (get_data_request [(''get_new'', PBool False)]),
           Recv (PDict [(''sample'', PStr ''trial''), (''stat'', PStr ''all'')])] \<and>
        get_trial 1 demo_ops ready_session [(''get_new'', PBool True)] =
          Some (Returned,
                s\<lparr>data_socket := (data_socket s)
                     \<lparr>wire := wire (data_socket ready_session) @
                              [Send (get_data_request [(''get_new'', PBool True)]),
                               Recv (PDict [(''sample'', PStr ''trial''), (''stat'', PStr ''all'')])],
                      request := get_data_request [(''get_new'', PBool True)]\<rparr>\<rparr>)) \<and>
   (\<forall>i. script (data_socket ready_session) i (get_data_request [(''get_new'', PBool False)]) =
        script (data_socket ready_session) i (get_data_request [(''get_new'', PBool True)])) \<and>
   map_option (apsnd erase_kwargs)
     (get_trial 1 demo_ops ready_session [(''get_new'', PBool False)]) =
   map_option (apsnd erase_kwargs)
     (get_trial 1 demo_ops ready_session [(''get_new'', PBool True)])"
proof -
  let ?d = "[(''sample'', PStr ''trial''), (''stat'', PStr ''all'')]"
  have g: "map_of [(''get_new'', PBool False)] ''get_new'' = Some (PBool False)"
    "map_of [(''get_new'', PBool True)] ''get_new'' = Some (PBool True)"
    by simp_all
  have h: "trial_sample ready_session = PNone"
    "\<not> closed (data_socket ready_session)" "\<not> awaiting_reply (data_socket ready_session)"
    "script (data_socket ready_session) (cursor (data_socket ready_session))
       (get_data_request [(''get_new'', PBool False)]) = Reply (PDict ?d)"
    "script (data_socket ready_session) (cursor (data_socket ready_session))
       (get_data_request [(''get_new'', PBool True)]) = Reply (PDict ?d)"
    by (simp_all add: ready_session_def run_start_def init_def comm_with_timeout_def
          req_send_pyobj_def req_recv_pyobj_def Let_def)
  have d: "map_of ?d ''ctrl'' = None" "map_of ?d ''sample'' = Some (PStr ''trial'')"
    "map_of ?d ''stat'' = Some (PStr ''all'')"
    by simp_all
  have o: "trial_sample (ready_session\<lparr>trial_sample := PStr ''old''\<rparr>) \<noteq> PNone"
    "\<not> truthy (PBool False)"
    by simp_all
  note T1 = trial_fetch[where tc = "[(''get_new'', PBool False)]" and tc' = "[(''get_new'', PBool True)]"
            and sv = "ready_session\<lparr>trial_sample := PStr ''old''\<rparr>" and fuel = 1 and ops = demo_ops
            and g = "PBool False" and g' = "PBool True", OF g]
  note T2 = trial_fetch[where tc = "[(''get_new'', PBool False)]" and tc' = "[(''get_new'', PBool True)]"
            and sv = ready_session and n = 0 and ops = demo_ops
            and g = "PBool False" and g' = "PBool True" and d = ?d
            and smp = "PStr ''trial''" and st = "PStr ''all''", OF g, unfolded One_nat_def [symmetric]]
  from T1 o have c1: "get_trial 1 demo_ops (ready_session\<lparr>trial_sample := PStr ''old''\<rparr>)
      [(''get_new'', PBool False)] = Some (Returned, ready_session\<lparr>trial_sample := PStr ''old''\<rparr>)"
    by blast
  have k: "\<forall>i. script (data_socket ready_session) i (get_data_request [(''get_new'', PBool False)]) =
        script (data_socket ready_session) i (get_data_request [(''get_new'', PBool True)])"
    by (simp add: ready_session_def run_start_def init_def comm_with_timeout_def
          req_send_pyobj_def req_recv_pyobj_def Let_def)
  note T3 = trial_fetch[where tc = "[(''get_new'', PBool False)]" and tc' = "[(''get_new'', PBool True)]"
            and sv = ready_session and fuel = 1 and ops = demo_ops
            and g = "PBool False" and g' = "PBool True", OF g]
  from T3 h(1) k have c4: "map_option (apsnd erase_kwargs)
       (get_trial 1 demo_ops ready_session [(''get_new'', PBool False)]) =
     map_option (apsnd erase_kwargs)
       (get_trial 1 demo_ops ready_session [(''get_new'', PBool True)])"
    by blast
  from T2 h d show ?thesis
    by (intro conjI g o(1) c1 h k c4) blast+
qed

text \<open>
  C8 as the specification words it does not hold: on a fresh session a reset with
  \<^verbatim>\<open>get_new\<close> false and one with \<^verbatim>\<open>get_new\<close> true both fetch a trial, but the
  requests they send differ in the \<open>kwargs\<close> they carry.
\<close>

theorem get_new_changes_the_request:
  "map_option (\<lambda>x. (fst x, wire (data_socket (snd x))))
     (get_trial 1 demo_ops ready_session [(''get_new'', PBool False), (''sample_type'', PInt 0)]) =
     Some (Returned,
       [Send (PDict [(''ctrl'', PStr ''ping!'')]),
        Recv (PDict [(''sample'', PStr ''trial''), (''stat'', PStr ''all'')]),
        Send (PDict [(''ctrl'', PStr ''_get_data''),
                     (''kwargs'', PDict [(''get_new'', PBool False), (''sample_type'', PInt 0)])]),
        Recv (PDict [(''sample'', PStr ''trial''), (''stat'', PStr ''all'')])]) \<and>
   map_option (\<lambda>x. (fst x, wire (data_socket (snd x))))
     (get_trial 1 demo_ops ready_session [(''get_new'', PBool True), (''sample_type'', PInt 0)]) =
     Some (Returned,
       [Send (PDict [(''ctrl'', PStr ''ping!'')]),
        Recv (PDict [(''sample'', PStr ''trial''), (''stat'', PStr ''all'')]),
        Send (PDict [(''ctrl'', PStr ''_get_data''),
                     (''kwargs'', PDict [(''get_new'', PBool True), (''sample_type'', PInt 0)])]),
        Recv (PDict [(''sample'', PStr ''trial''), (''stat'', PStr ''all'')])]) \<and>
   map_option (\<lambda>x. wire (data_socket (snd x)))
     (get_trial 1 demo_ops ready_session [(''get_new'', PBool False), (''sample_type'', PInt 0)]) \<noteq>
   map_option (\<lambda>x. wire (data_socket (snd x)))
     (get_trial 1 demo_ops ready_session [(''get_new'', PBool True), (''sample_type'', PInt 0)])"
  by (simp add: acquire_defs ready_defs)

section \<open>Properties of the server's start\<close>

text \<open>
  C10. The constructor argument \<open>connect_timeout\<close> (default 90) has no effect on any
  socket: whatever it is, \<open>run_start\<close> gives the controller socket the receive timeout
  \<open>-1\<close> (no limit) and the send timeout of 60 seconds (in milliseconds), gives the data
  socket 60 seconds for both, and leaves the sockets and the outcome of the ping as they
  are with the default.
\<close>

theorem connect_timeout_has_no_effect:
  "rcvtimeo (socket (snd (run_start ops (init c r na dna t ll tk) reqs prov draws))) = - 1 \<and>
   sndtimeo (socket (snd (run_start ops (init c r na dna t ll tk) reqs prov draws))) = 60 * 1000 \<and>
   rcvtimeo (data_socket (snd (run_start ops (init c r na dna t ll tk) reqs prov draws))) = 60 * 1000 \<and>
   sndtimeo (data_socket (snd (run_start ops (init c r na dna t ll tk) reqs prov draws))) = 60 * 1000 \<and>
   socket (snd (run_start ops (init c r na dna t ll tk) reqs prov draws)) =
     socket (snd (run_start ops (init c r na dna 90 ll tk) reqs prov draws)) \<and>
   data_socket (snd (run_start ops (init c r na dna t ll tk) reqs prov draws)) =
     data_socket (snd (run_start ops (init c r na dna 90 ll tk) reqs prov draws)) \<and>
   fst (run_start ops (init c r na dna t ll tk) reqs prov draws) =
     fst (run_start ops (init c r na dna 90 ll tk) reqs prov draws)"
  by (cases "prov 0 (PDict [(''ctrl'', PStr ''ping!'')])")
     (simp_all add: run_start_def init_def comm_with_timeout_def req_send_pyobj_def
        req_recv_pyobj_def Let_def)

end
